theory Spec2Isabelle
  imports Main "HOL-Library.Sublist"
begin

section \<open>Python values used by the cpufreq module\<close>

text \<open>
  The module \<^verbatim>\<open>devlib/module/cpufreq.py\<close> builds sysfs paths with \<^verbatim>\<open>str.format\<close>,
  splits file contents with \<^verbatim>\<open>str.split()\<close> and parses numbers with \<^verbatim>\<open>int()\<close>.
  Strings are \<^typ>\<open>string\<close>, Python integers are \<^typ>\<open>int\<close>.
\<close>

definition digit_char :: "nat \<Rightarrow> char" where
  "digit_char d = ''0123456789'' ! d"

function show_nat :: "nat \<Rightarrow> string" where
  "show_nat n = (if n < 10 then [digit_char n] else show_nat (n div 10) @ [digit_char (n mod 10)])"
  by pat_completeness auto
termination
  by (relation "measure id") auto

declare show_nat.simps [simp del]

text \<open>\<^verbatim>\<open>str(i)\<close> and \<^verbatim>\<open>'{}'.format(i)\<close> for an integer \<open>i\<close>.\<close>

definition show_int :: "int \<Rightarrow> string" where
  "show_int i = (if i < 0 then CHR ''-'' # show_nat (nat (- i)) else show_nat (nat i))"

text \<open>The ASCII characters on which \<^verbatim>\<open>str.split()\<close> and \<^verbatim>\<open>str.strip()\<close> cut.\<close>

definition is_space :: "char \<Rightarrow> bool" where
  "is_space c \<longleftrightarrow> c \<in> set [CHR '' '', CHR 0x09, CHR 0x0A, CHR 0x0B, CHR 0x0C, CHR 0x0D,
                             CHR 0x1C, CHR 0x1D, CHR 0x1E, CHR 0x1F]"

text \<open>
  \<^verbatim>\<open>s.split()\<close>: the maximal runs of non-space characters, in order. The first argument
  is the word being read.
\<close>

fun split_words :: "string \<Rightarrow> string \<Rightarrow> string list" where
  "split_words w [] = (if w = [] then [] else [w])"
| "split_words w (c # cs) =
     (if is_space c then (if w = [] then split_words [] cs else w # split_words [] cs)
      else split_words (w @ [c]) cs)"

definition py_split :: "string \<Rightarrow> string list" where
  "py_split s = split_words [] s"

definition py_strip :: "string \<Rightarrow> string" where
  "py_strip s = rev (dropWhile is_space (rev (dropWhile is_space s)))"

definition digit_of :: "char \<Rightarrow> nat option" where
  "digit_of c = map_of (zip ''0123456789'' [0, 1, 2, 3, 4, 5, 6, 7, 8, 9]) c"

fun read_digits :: "nat \<Rightarrow> string \<Rightarrow> nat option" where
  "read_digits acc [] = Some acc"
| "read_digits acc (c # cs) =
     (case digit_of c of None \<Rightarrow> None | Some d \<Rightarrow> read_digits (10 * acc + d) cs)"

text \<open>
  The exceptions the module raises or lets through. \<open>During e c\<close> is the exception
  \<open>e\<close> raised while \<open>c\<close> was being handled: Python records \<open>c\<close> as the
  \<^verbatim>\<open>__context__\<close> of \<open>e\<close>, and \<open>e\<close> is the exception that propagates.
\<close>

datatype error =
    TargetStableError string
  | KeyError string
  | IndexError
  | ValueError string
  | UserError string
  | During error error

text \<open>
  \<^verbatim>\<open>int(s)\<close> on a token without surrounding blanks: an optional sign and decimal
  digits. Digit-group underscores and non-ASCII digits are outside this model: they
  raise here.
\<close>

definition py_int :: "string \<Rightarrow> error + int" where
  "py_int s =
     (case s of
        [] \<Rightarrow> Inl (ValueError s)
      | c # cs \<Rightarrow>
          (if c = CHR ''-'' then
             (if cs = [] then Inl (ValueError s)
              else (case read_digits 0 cs of None \<Rightarrow> Inl (ValueError s) | Some n \<Rightarrow> Inr (- int n)))
           else if c = CHR ''+'' then
             (if cs = [] then Inl (ValueError s)
              else (case read_digits 0 cs of None \<Rightarrow> Inl (ValueError s) | Some n \<Rightarrow> Inr (int n)))
           else (case read_digits 0 s of None \<Rightarrow> Inl (ValueError s) | Some n \<Rightarrow> Inr (int n))))"

text \<open>
  \<^verbatim>\<open>repr\<close> of a string, of a list of strings, as \<^verbatim>\<open>'{}'.format(valid_tunables)\<close> prints
  it, and of a list of integers. A string is a Python \<^verbatim>\<open>str\<close> with code points below
  256, one \<^typ>\<open>char\<close> per code point. \<^verbatim>\<open>repr\<close> puts the string between single quotes,
  or between double quotes when it holds a single quote and no double quote; it
  escapes the quote it chose and the backslash, writes tab, newline and carriage
  return as \<^verbatim>\<open>\t\<close>, \<^verbatim>\<open>\n\<close>, \<^verbatim>\<open>\r\<close>, and every other code point that is not
  printable as \<^verbatim>\<open>\xNN\<close>.
\<close>

definition hex_digit :: "nat \<Rightarrow> char" where
  "hex_digit d = ''0123456789abcdef'' ! d"

definition printable :: "char \<Rightarrow> bool" where
  "printable c \<longleftrightarrow>
     (0x20 \<le> (of_char c :: nat) \<and> (of_char c :: nat) < 0x7F) \<or>
     (0xA1 \<le> (of_char c :: nat) \<and> (of_char c :: nat) \<noteq> 0xAD)"

definition repr_char :: "char \<Rightarrow> char \<Rightarrow> string" where
  "repr_char quote c =
     (if c = quote \<or> c = CHR 0x5C then [CHR 0x5C, c]
      else if c = CHR 0x09 then [CHR 0x5C, CHR ''t'']
      else if c = CHR 0x0A then [CHR 0x5C, CHR ''n'']
      else if c = CHR 0x0D then [CHR 0x5C, CHR ''r'']
      else if printable c then [c]
      else [CHR 0x5C, CHR ''x'', hex_digit (of_char c div 16), hex_digit (of_char c mod 16)])"

definition repr_str :: "string \<Rightarrow> string" where
  "repr_str s =
     (let quote = (if CHR 0x27 \<in> set s \<and> CHR 0x22 \<notin> set s then CHR 0x22 else CHR 0x27)
      in [quote] @ concat (map (repr_char quote) s) @ [quote])"

fun join_with :: "string \<Rightarrow> string list \<Rightarrow> string" where
  "join_with sep [] = []"
| "join_with sep [x] = x"
| "join_with sep (x # y # ys) = x @ sep @ join_with sep (y # ys)"

definition repr_list :: "string list \<Rightarrow> string" where
  "repr_list xs = ''['' @ join_with '', '' (map repr_str xs) @ '']''"

definition repr_int_list :: "int list \<Rightarrow> string" where
  "repr_int_list xs = ''['' @ join_with '', '' (map show_int xs) @ '']''"

subsection \<open>Dictionaries and sets\<close>

text \<open>
  A \<^verbatim>\<open>dict\<close> keeps its keys in insertion order; storing under a key that is present
  replaces the value in place. A \<^verbatim>\<open>set\<close> built from a sequence is modelled by the
  list of its distinct elements in order of first occurrence; the order in which
  Python iterates over a set is not specified, and no theorem below depends on it.
\<close>

type_synonym ('k, 'v) dict = "('k \<times> 'v) list"

fun dict_set :: "('k, 'v) dict \<Rightarrow> 'k \<Rightarrow> 'v \<Rightarrow> ('k, 'v) dict" where
  "dict_set [] k v = [(k, v)]"
| "dict_set ((k', v') # d) k v = (if k' = k then (k, v) # d else (k', v') # dict_set d k v)"

definition dict_of :: "('k \<times> 'v) list \<Rightarrow> ('k, 'v) dict" where
  "dict_of kvs = foldl (\<lambda>d (k, v). dict_set d k v) [] kvs"

definition dict_values :: "('k, 'v) dict \<Rightarrow> 'v list" where
  "dict_values d = map snd d"

fun py_set :: "'a list \<Rightarrow> 'a list" where
  "py_set [] = []"
| "py_set (x # xs) = x # filter (\<lambda>y. y \<noteq> x) (py_set xs)"

section \<open>The target\<close>

text \<open>
  A cpu is named by its number or by its sysfs name (\<^verbatim>\<open>1\<close> or \<^verbatim>\<open>"cpu1"\<close>); every
  method starts with
  \<^verbatim>\<open>if isinstance(cpu, int): cpu = 'cpu{}'.format(cpu)\<close>.
\<close>

datatype cpu_arg = CpuNum int | CpuName string

fun cpu_str :: "cpu_arg \<Rightarrow> string" where
  "cpu_str (CpuNum i) = ''cpu'' @ show_int i"
| "cpu_str (CpuName s) = s"

text \<open>What the module asks of the device, in the order it asks.\<close>

datatype access =
    Read string
  | Write string string
  | ListDir string
  | Execute string
  | Exists string

text \<open>
  The state the module works on: the device's file namespace and the module's caches.
  \<open>link\<close> resolves a path to the file it names (on Linux
  \<^verbatim>\<open>cpuN/cpufreq\<close> is a symbolic link to the policy directory shared by the cpus of one
  frequency domain). \<open>files\<close> is what can be read. \<open>refuses file v\<close> says that the
  device rejects the write of \<open>v\<close> to the file (a node that cannot be written, a value
  the kernel does not accept); \<open>holds file v\<close> is what the file shows once the write of
  \<open>v\<close> has been accepted: \<open>v\<close> as a rule, another value where the kernel keeps it in
  another form, nothing for a node that can be written and not read.
  \<open>governor_tunables\<close> is \<^verbatim>\<open>self._governor_tunables\<close>; the
  memo fields are the caches of the memoized methods \<^verbatim>\<open>list_governors\<close>,
  \<^verbatim>\<open>list_frequencies\<close> and \<^verbatim>\<open>get_related_cpus\<close>.
\<close>

record state =
  files :: "string \<rightharpoonup> string"
  dirs :: "string \<rightharpoonup> string list"
  link :: "string \<Rightarrow> string"
  refuses :: "string \<Rightarrow> string \<Rightarrow> bool"
  holds :: "string \<Rightarrow> string \<Rightarrow> string option"
  online_cpus :: "int list"
  accesses :: "access list"
  governor_tunables :: "string \<rightharpoonup> (string \<times> bool \<times> string list)"
  governors_memo :: "cpu_arg \<rightharpoonup> string list"
  frequencies_memo :: "cpu_arg \<rightharpoonup> int list"
  related_memo :: "cpu_arg \<rightharpoonup> int list"
  number_of_cpus :: nat

type_synonym 'a task = "state \<Rightarrow> (error + 'a) \<times> state"

definition ret :: "'a \<Rightarrow> 'a task" where
  "ret x = (\<lambda>s. (Inr x, s))"

definition raise :: "error \<Rightarrow> 'a task" where
  "raise e = (\<lambda>s. (Inl e, s))"

text \<open>\<open>await m f\<close>: run \<open>m\<close>; an exception of \<open>m\<close> propagates, a result goes to \<open>f\<close>.\<close>

definition await :: "'a task \<Rightarrow> ('a \<Rightarrow> 'b task) \<Rightarrow> 'b task" where
  "await m f = (\<lambda>s. case m s of (Inl e, s') \<Rightarrow> (Inl e, s') | (Inr x, s') \<Rightarrow> f x s')"

text \<open>\<^verbatim>\<open>try: m  except TargetStableError: h\<close>; the handler is given the exception it caught.\<close>

definition except_TargetStableError :: "'a task \<Rightarrow> (error \<Rightarrow> 'a task) \<Rightarrow> 'a task" where
  "except_TargetStableError m h =
     (\<lambda>s. case m s of (Inl (TargetStableError msg), s') \<Rightarrow> h (TargetStableError msg) s' | r \<Rightarrow> r)"

text \<open>\<^verbatim>\<open>try: m  except ValueError: raise e\<close>\<close>

definition except_ValueError_raise :: "'a task \<Rightarrow> error \<Rightarrow> 'a task" where
  "except_ValueError_raise m e =
     (\<lambda>s. case m s of (Inl (ValueError msg), s') \<Rightarrow> (Inl (During e (ValueError msg)), s') | r \<Rightarrow> r)"

text \<open>
  \<^verbatim>\<open>try: body  finally: fin\<close>. The block \<open>fin\<close> runs on both ways out of \<open>body\<close>. An
  exception of \<open>fin\<close> is the one that leaves the statement; when \<open>body\<close> had raised
  too, its exception is kept as the context of the new one.
\<close>

definition try_finally :: "unit task \<Rightarrow> unit task \<Rightarrow> unit task" where
  "try_finally body fin =
     (\<lambda>s. case body s of
        (Inr x, s1) \<Rightarrow> (case fin s1 of (Inr u, s2) \<Rightarrow> (Inr x, s2) | (Inl e, s2) \<Rightarrow> (Inl e, s2))
      | (Inl eb, s1) \<Rightarrow>
          (case fin s1 of (Inr u, s2) \<Rightarrow> (Inl eb, s2) | (Inl e, s2) \<Rightarrow> (Inl (During e eb), s2)))"

text \<open>
  Modelled from the spec: the coordinator \<^verbatim>\<open>target.async_manager\<close>
  (\<^verbatim>\<open>devlib/utils/asyn.py\<close> is not among the sources). \<open>concurrently\<close> takes an ordered
  sequence of tasks and returns their results in the same order; the first failure
  is raised and the unfinished tasks are cancelled. The interleaving inside one call
  is fixed here to the order of the sequence; what is proved below about order speaks
  of separate calls only, which the awaiting code runs one after the other.
\<close>

fun concurrently :: "'a task list \<Rightarrow> 'a list task" where
  "concurrently [] = ret []"
| "concurrently (t # ts) = await t (\<lambda>x. await (concurrently ts) (\<lambda>xs. ret (x # xs)))"

definition map_concurrently :: "('k \<Rightarrow> 'v task) \<Rightarrow> 'k list \<Rightarrow> ('k, 'v) dict task" where
  "map_concurrently f keys = await (concurrently (map f keys)) (\<lambda>rs. ret (dict_of (zip keys rs)))"

text \<open>
  Modelled from the spec: the device collaborator (\<^verbatim>\<open>devlib/target.py\<close> is not among
  the sources). \<open>read_value\<close> returns the content of a path and fails with a stable
  error when the path is absent or cannot be read. \<open>write_value\<close> fails with a
  stable error when the device refuses the write; otherwise the file takes what the
  device holds for the value, and, when \<open>verify\<close> is set, the path is read back and
  the call raises if what is read is not the value written, or if nothing can be
  read. \<open>verify\<close> is set unless the caller passes \<^verbatim>\<open>verify=False\<close>, as
  \<^verbatim>\<open>set_frequency\<close> does. \<open>list_directory\<close> returns the entries of a directory;
  \<open>execute_cat\<close> is the one command the module runs, \<^verbatim>\<open>cat <path>\<close>. Every access
  is recorded, a write also when it fails.
\<close>

definition logged :: "access \<Rightarrow> state \<Rightarrow> state" where
  "logged a s = s\<lparr>accesses := accesses s @ [a]\<rparr>"

definition read_value :: "string \<Rightarrow> string task" where
  "read_value path =
     (\<lambda>s. case files s (link s path) of
        None \<Rightarrow> (Inl (TargetStableError (''Could not read '' @ path)), logged (Read path) s)
      | Some v \<Rightarrow> (Inr v, logged (Read path) s))"

definition read_int :: "string \<Rightarrow> int task" where
  "read_int path =
     await (read_value path) (\<lambda>v. case py_int v of Inl e \<Rightarrow> raise e | Inr i \<Rightarrow> ret i)"

definition write_value :: "string \<Rightarrow> string \<Rightarrow> bool \<Rightarrow> unit task" where
  "write_value path v verify =
     (\<lambda>s. if refuses s (link s path) v
          then (Inl (TargetStableError (''Could not write '' @ v @ '' to '' @ path)),
                logged (Write path v) s)
          else
            let s' = logged (Write path v)
                       (s\<lparr>files := (files s)(link s path := holds s (link s path) v)\<rparr>)
            in if verify \<and> files s' (link s' path) \<noteq> Some v
               then (Inl (TargetStableError (''Could not set the value of '' @ path @ '' to '' @ v)), s')
               else (Inr (), s'))"

definition list_directory :: "string \<Rightarrow> string list task" where
  "list_directory path =
     (\<lambda>s. case dirs s (link s path) of
        None \<Rightarrow> (Inl (TargetStableError (''Could not list '' @ path)), logged (ListDir path) s)
      | Some es \<Rightarrow> (Inr es, logged (ListDir path) s))"

definition execute_cat :: "string \<Rightarrow> string task" where
  "execute_cat path =
     (\<lambda>s. case files s (link s path) of
        None \<Rightarrow> (Inl (TargetStableError (''cat '' @ path)), logged (Execute (''cat '' @ path)) s)
      | Some v \<Rightarrow> (Inr v, logged (Execute (''cat '' @ path)) s))"

definition file_exists :: "string \<Rightarrow> bool task" where
  "file_exists path = (\<lambda>s. (Inr (files s (link s path) \<noteq> None), logged (Exists path) s))"

definition list_online_cpus :: "int list task" where
  "list_online_cpus = (\<lambda>s. (Inr (online_cpus s), s))"

text \<open>
  Modelled from the spec: the cache of a memoized method (the decorator
  \<^verbatim>\<open>asyn.memoized_method\<close> is not among the sources). A stored result is returned
  without running the method; a computed result is stored for good; a failure stores
  nothing.
\<close>

definition memoized_method ::
  "(state \<Rightarrow> ('k \<rightharpoonup> 'v)) \<Rightarrow> ((('k \<rightharpoonup> 'v) \<Rightarrow> ('k \<rightharpoonup> 'v)) \<Rightarrow> state \<Rightarrow> state) \<Rightarrow> 'k \<Rightarrow> 'v task \<Rightarrow> 'v task" where
  "memoized_method cache cache_update key producer =
     (\<lambda>s. case cache s key of
        Some v \<Rightarrow> (Inr v, s)
      | None \<Rightarrow> (case producer s of
                  (Inl e, s') \<Rightarrow> (Inl e, s')
                | (Inr v, s') \<Rightarrow> (Inr v, cache_update (\<lambda>c. c(key \<mapsto> v)) s')))"

section \<open>The cpufreq module\<close>

text \<open>\<^verbatim>\<open>WRITE_ONLY_TUNABLES.get(governor, [])\<close>\<close>

definition WRITE_ONLY_TUNABLES :: "string \<Rightarrow> string list" where
  "WRITE_ONLY_TUNABLES governor = (if governor = ''interactive'' then [''boostpulse''] else [])"

text \<open>The format strings of the module.\<close>

definition sysfs_cpufreq :: "string \<Rightarrow> string \<Rightarrow> string" where
  "sysfs_cpufreq cpu node = ''/sys/devices/system/cpu/'' @ cpu @ ''/cpufreq/'' @ node"

definition tunable_path_per_cpu :: "string \<Rightarrow> string \<Rightarrow> string \<Rightarrow> string" where
  "tunable_path_per_cpu cpu governor tunable =
     ''/sys/devices/system/cpu/'' @ cpu @ ''/cpufreq/'' @ governor @ ''/'' @ tunable"

definition tunable_path_global :: "string \<Rightarrow> string \<Rightarrow> string" where
  "tunable_path_global governor tunable =
     ''/sys/devices/system/cpu/cpufreq/'' @ governor @ ''/'' @ tunable"

definition unexpected_tunable :: "string \<Rightarrow> string \<Rightarrow> string \<Rightarrow> string list \<Rightarrow> string" where
  "unexpected_tunable tunable governor cpu valid_tunables =
     ''Unexpected tunable '' @ tunable @ '' for governor '' @ governor @ '' on '' @ cpu @ ''.''
       @ [CHR 0x0A] @ ''Available tunables are: '' @ repr_list valid_tunables"

text \<open>\<^verbatim>\<open>[int(c) for c in tokens]\<close>: the first token that does not parse raises.\<close>

fun map_py_int :: "string list \<Rightarrow> error + int list" where
  "map_py_int [] = Inr []"
| "map_py_int (t # ts) =
     (case py_int t of
        Inl e \<Rightarrow> Inl e
      | Inr i \<Rightarrow> (case map_py_int ts of Inl e \<Rightarrow> Inl e | Inr is \<Rightarrow> Inr (i # is)))"

definition lift :: "error + 'a \<Rightarrow> 'a task" where
  "lift r = (case r of Inl e \<Rightarrow> raise e | Inr x \<Rightarrow> ret x)"

definition list_governors :: "cpu_arg \<Rightarrow> string list task" where
  "list_governors cpu0 =
     memoized_method governors_memo governors_memo_update cpu0
       (let cpu = cpu_str cpu0;
            sysfile = sysfs_cpufreq cpu ''scaling_available_governors''
        in await (read_value sysfile) (\<lambda>output. ret (py_split (py_strip output))))"

definition get_governor :: "cpu_arg \<Rightarrow> string task" where
  "get_governor cpu0 =
     (let cpu = cpu_str cpu0;
          sysfile = sysfs_cpufreq cpu ''scaling_governor''
      in read_value sysfile)"

text \<open>
  \<^verbatim>\<open>_list_governor_tunables\<close>. The lookup in \<^verbatim>\<open>self._governor_tunables\<close> raises
  \<^verbatim>\<open>KeyError\<close> on a governor not probed yet, and the handler probes the per-cpu
  directory, then the global one of old kernels.
\<close>

definition priv_list_governor_tunables ::
  "cpu_arg \<Rightarrow> string option \<Rightarrow> (string \<times> bool \<times> string list) task" where
  "priv_list_governor_tunables cpu0 governor0 =
     (let cpu = cpu_str cpu0 in
      await (case governor0 of None \<Rightarrow> get_governor (CpuName cpu) | Some g \<Rightarrow> ret g) (\<lambda>governor.
        if governor = [] then raise (TargetStableError [])
        else (\<lambda>s. case governor_tunables s governor of
                Some data \<Rightarrow> (Inr data, s)
              | None \<Rightarrow>
                  await
                    (except_TargetStableError
                       (await (list_directory (''/sys/devices/system/cpu/'' @ cpu @ ''/cpufreq/'' @ governor))
                          (\<lambda>tunables. ret (True, tunables)))
                       (\<lambda>e. except_TargetStableError
                          (await (list_directory (''/sys/devices/system/cpu/cpufreq/'' @ governor))
                             (\<lambda>tunables. ret (False, tunables)))
                          (\<lambda>e. ret (False, []))))
                    (\<lambda>(per_cpu, tunables).
                       let data = (governor, per_cpu, tunables)
                       in (\<lambda>s. (Inr data,
                                if governor \<noteq> []
                                then s\<lparr>governor_tunables := (governor_tunables s)(governor \<mapsto> data)\<rparr>
                                else s)))
                    s)))"

definition list_governor_tunables :: "cpu_arg \<Rightarrow> string list task" where
  "list_governor_tunables cpu =
     await (priv_list_governor_tunables cpu None) (\<lambda>(g, per_cpu, tunables). ret tunables)"

definition get_tunable :: "string \<Rightarrow> string \<Rightarrow> string \<Rightarrow> string task" where
  "get_tunable cpu governor tunable =
     except_TargetStableError
       (read_value (tunable_path_per_cpu cpu governor tunable))
       (\<lambda>e. read_value (tunable_path_global governor tunable))"

definition get_governor_tunables :: "cpu_arg \<Rightarrow> (string, string) dict task" where
  "get_governor_tunables cpu0 =
     (let cpu = cpu_str cpu0 in
      await (priv_list_governor_tunables (CpuName cpu) None) (\<lambda>(governor, per_cpu, tunable_list).
        let write_only = WRITE_ONLY_TUNABLES governor;
            tunable_list = filter (\<lambda>tunable. tunable \<notin> set write_only) tunable_list
        in map_concurrently (get_tunable cpu governor) tunable_list))"

text \<open>The loop \<^verbatim>\<open>for tunable, value in kwargs.items()\<close> of \<^verbatim>\<open>set_governor_tunables\<close>.\<close>

fun write_tunables ::
  "string \<Rightarrow> string \<Rightarrow> bool \<Rightarrow> string list \<Rightarrow> bool option \<Rightarrow> (string, string) dict \<Rightarrow> unit task" where
  "write_tunables cpu governor gov_per_cpu valid_tunables per_cpu [] = ret ()"
| "write_tunables cpu governor gov_per_cpu valid_tunables per_cpu ((tunable, v) # kwargs) =
     (if tunable \<in> set valid_tunables then
        (if per_cpu \<noteq> None \<and> Some gov_per_cpu \<noteq> per_cpu then
           write_tunables cpu governor gov_per_cpu valid_tunables per_cpu kwargs
         else
           await (write_value
                    (if gov_per_cpu then tunable_path_per_cpu cpu governor tunable
                     else tunable_path_global governor tunable) v True)
             (\<lambda>u. write_tunables cpu governor gov_per_cpu valid_tunables per_cpu kwargs))
      else raise (TargetStableError (unexpected_tunable tunable governor cpu valid_tunables)))"

definition set_governor_tunables ::
  "cpu_arg \<Rightarrow> string option \<Rightarrow> bool option \<Rightarrow> (string, string) dict \<Rightarrow> unit task" where
  "set_governor_tunables cpu0 governor0 per_cpu kwargs =
     (if kwargs = [] then ret ()
      else
        let cpu = cpu_str cpu0 in
        await (priv_list_governor_tunables (CpuName cpu) governor0) (\<lambda>(governor, gov_per_cpu, valid_tunables).
          write_tunables cpu governor gov_per_cpu valid_tunables per_cpu kwargs))"

definition set_governor :: "cpu_arg \<Rightarrow> string \<Rightarrow> (string, string) dict \<Rightarrow> unit task" where
  "set_governor cpu0 governor kwargs =
     (let cpu = cpu_str cpu0 in
      await (list_governors (CpuName cpu)) (\<lambda>supported.
        if governor \<notin> set supported
        then raise (TargetStableError (''Governor '' @ governor @ '' not supported for cpu '' @ cpu))
        else
          let sysfile = sysfs_cpufreq cpu ''scaling_governor'' in
          await (write_value sysfile governor True) (\<lambda>u.
            set_governor_tunables (CpuName cpu) (Some governor) None kwargs)))"

definition list_frequencies :: "cpu_arg \<Rightarrow> int list task" where
  "list_frequencies cpu0 =
     memoized_method frequencies_memo frequencies_memo_update cpu0
       (let cpu = cpu_str cpu0 in
        await
          (except_TargetStableError
             (await (execute_cat (sysfs_cpufreq cpu ''scaling_available_frequencies'')) (\<lambda>output.
                await (lift (map_py_int (py_split (py_strip output)))) (\<lambda>fs. ret (Some fs))))
             (\<lambda>e.
                let path = sysfs_cpufreq cpu ''stats/time_in_state'' in
                await
                  (except_TargetStableError
                     (await (read_value path) (\<lambda>v. ret (Some (py_split v))))
                     (\<lambda>e. await (file_exists path) (\<lambda>b. if \<not> b then ret None else raise e)))
                  (\<lambda>r. case r of
                     None \<Rightarrow> ret None
                   | Some out_iter \<Rightarrow>
                       await (lift (map_py_int (rev (map fst (zip out_iter out_iter)))))
                         (\<lambda>fs. ret (Some fs)))))
          (\<lambda>r. case r of None \<Rightarrow> ret [] | Some available_frequencies \<Rightarrow> ret (sort available_frequencies)))"

definition get_frequency :: "cpu_arg \<Rightarrow> bool \<Rightarrow> int task" where
  "get_frequency cpu0 cpuinfo =
     (let cpu = cpu_str cpu0;
          sysfile = sysfs_cpufreq cpu (if cpuinfo then ''cpuinfo_cur_freq'' else ''scaling_cur_freq'')
      in read_int sysfile)"

definition set_frequency :: "cpu_arg \<Rightarrow> int \<Rightarrow> bool \<Rightarrow> unit task" where
  "set_frequency cpu0 frequency exact =
     (let cpu = cpu_str cpu0 in
      except_ValueError_raise
        (let val = frequency in
         await (if exact
                then await (list_frequencies (CpuName cpu)) (\<lambda>available_frequencies.
                       if available_frequencies \<noteq> [] \<and> val \<notin> set available_frequencies
                       then raise (TargetStableError (''Can't set '' @ cpu @ '' frequency to '' @ show_int val
                                @ [CHR 0x0A] @ ''must be in '' @ repr_int_list available_frequencies))
                       else ret ())
                else ret ()) (\<lambda>u.
         await (get_governor (CpuName cpu)) (\<lambda>g.
           if g \<noteq> ''userspace''
           then raise (TargetStableError (''Can't set '' @ cpu @ '' frequency; governor must be ''
                         @ [CHR 0x22] @ ''userspace'' @ [CHR 0x22]))
           else
             let sysfile = sysfs_cpufreq cpu ''scaling_setspeed'' in
             await (write_value sysfile (show_int val) False) (\<lambda>u.
             await (get_frequency (CpuName cpu) True) (\<lambda>cpuinfo. ret ())))))
        (ValueError (''Frequency must be an integer; got: '' @ [CHR 0x22] @ show_int frequency @ [CHR 0x22])))"

definition get_affected_cpus :: "cpu_arg \<Rightarrow> int list task" where
  "get_affected_cpus cpu0 =
     (let cpu = cpu_str cpu0;
          sysfile = sysfs_cpufreq cpu ''affected_cpus''
      in await (read_value sysfile) (\<lambda>content. lift (map_py_int (py_split content))))"

definition get_related_cpus :: "cpu_arg \<Rightarrow> int list task" where
  "get_related_cpus cpu0 =
     memoized_method related_memo related_memo_update cpu0
       (let cpu = cpu_str cpu0;
            sysfile = sysfs_cpufreq cpu ''related_cpus''
        in await (read_value sysfile) (\<lambda>content. lift (map_py_int (py_split content))))"

subsection \<open>\<^verbatim>\<open>use_governor\<close>\<close>

type_synonym cpu_info = "int list \<times> string \<times> (string, string) dict \<times> int"

text \<open>A comprehension whose element expression can raise.\<close>

fun for_each :: "('a \<Rightarrow> 'b task) \<Rightarrow> 'a list \<Rightarrow> 'b list task" where
  "for_each f [] = ret []"
| "for_each f (x # xs) = await (f x) (\<lambda>y. await (for_each f xs) (\<lambda>ys. ret (y # ys)))"

text \<open>\<^verbatim>\<open>d[k]\<close> on a dictionary with integer keys.\<close>

definition getitem :: "(int, 'v) dict \<Rightarrow> int \<Rightarrow> 'v task" where
  "getitem d k = (case map_of d k of None \<Rightarrow> raise (KeyError (show_int k)) | Some v \<Rightarrow> ret v)"

definition get_cpu_info :: "int \<Rightarrow> cpu_info task" where
  "get_cpu_info cpu =
     await (get_affected_cpus (CpuNum cpu)) (\<lambda>affected.
     await (get_governor (CpuNum cpu)) (\<lambda>governor.
     await (get_governor_tunables (CpuNum cpu)) (\<lambda>tunables.
     await (get_frequency (CpuNum cpu) False) (\<lambda>freq.
       ret (affected, governor, tunables, freq)))))"

text \<open>\<^verbatim>\<open>set(info[0][0] for info in cpus_infos.values())\<close>\<close>

definition domains_of :: "(int, cpu_info) dict \<Rightarrow> int list task" where
  "domains_of cpus_infos =
     await (for_each (\<lambda>info. case fst info of [] \<Rightarrow> raise IndexError | c # cs \<Rightarrow> ret c)
              (dict_values cpus_infos))
       (\<lambda>firsts. ret (py_set firsts))"

text \<open>The statements of \<^verbatim>\<open>use_governor\<close> before \<^verbatim>\<open>try: yield\<close>.\<close>

definition enter_use_governor ::
  "string \<Rightarrow> int list \<Rightarrow> (string, string) dict \<Rightarrow> ((int, cpu_info) dict \<times> int list) task" where
  "enter_use_governor governor cpus0 kwargs =
     await (if cpus0 = [] then list_online_cpus else ret cpus0) (\<lambda>cpus.
     await (map_concurrently get_cpu_info cpus) (\<lambda>cpus_infos.
     await (domains_of cpus_infos) (\<lambda>domains.
     await (concurrently (map (\<lambda>cpu. set_governor (CpuNum cpu) governor kwargs) domains)) (\<lambda>us.
       ret (cpus_infos, domains)))))"

text \<open>The \<^verbatim>\<open>finally\<close> block.\<close>

definition set_per_cpu_tunables :: "(int, cpu_info) dict \<Rightarrow> int \<Rightarrow> unit task" where
  "set_per_cpu_tunables cpus_infos cpu =
     await (getitem cpus_infos cpu) (\<lambda>(domain, prev_gov, tunables, freq).
     await (set_governor_tunables (CpuNum cpu) (Some prev_gov) (Some True) tunables) (\<lambda>u.
       if prev_gov = ''userspace'' then set_frequency (CpuNum cpu) freq True else ret ()))"

definition per_cpu_tunables :: "(int, cpu_info) dict \<Rightarrow> int list \<Rightarrow> unit list task" where
  "per_cpu_tunables cpus_infos domains =
     concurrently (map (set_per_cpu_tunables cpus_infos) domains)"

definition global_tunables_dict ::
  "(int, cpu_info) dict \<Rightarrow> (string, int \<times> (string, string) dict) dict" where
  "global_tunables_dict cpus_infos =
     dict_of (map (\<lambda>(cpu, (domain, prev_gov, tunables, freq)). (prev_gov, (cpu, tunables))) cpus_infos)"

definition global_tunables :: "(int, cpu_info) dict \<Rightarrow> unit list task" where
  "global_tunables cpus_infos =
     concurrently (map (\<lambda>(gov, (cpu, tunables)).
                          set_governor_tunables (CpuNum cpu) (Some gov) (Some False) tunables)
                     (global_tunables_dict cpus_infos))"

text \<open>
  \<^verbatim>\<open>await concurrently(self.set_governor.asyn(cpu, cpus_infos[cpu][1]) for cpu in domains)\<close>:
  the generator is run to its end, looking every cpu up, before a task starts.
\<close>

definition restore_governors :: "(int, cpu_info) dict \<Rightarrow> int list \<Rightarrow> unit list task" where
  "restore_governors cpus_infos domains =
     await (for_each (\<lambda>cpu. await (getitem cpus_infos cpu) (\<lambda>info. ret (cpu, fst (snd info)))) domains)
       (\<lambda>args. concurrently (map (\<lambda>(cpu, prev_gov). set_governor (CpuNum cpu) prev_gov []) args))"

definition restore_tunables :: "(int, cpu_info) dict \<Rightarrow> int list \<Rightarrow> unit task" where
  "restore_tunables cpus_infos domains =
     await (concurrently [per_cpu_tunables cpus_infos domains, global_tunables cpus_infos])
       (\<lambda>us. ret ())"

definition exit_use_governor :: "(int, cpu_info) dict \<Rightarrow> int list \<Rightarrow> unit task" where
  "exit_use_governor cpus_infos domains =
     await (restore_governors cpus_infos domains) (\<lambda>us. restore_tunables cpus_infos domains)"

text \<open>
  \<^verbatim>\<open>async with use_governor(governor, cpus, **kwargs): body\<close>. The body is any code
  that works on the same target; it returns or raises.
\<close>

definition use_governor ::
  "string \<Rightarrow> int list \<Rightarrow> (string, string) dict \<Rightarrow> unit task \<Rightarrow> unit task" where
  "use_governor governor cpus kwargs body =
     await (enter_use_governor governor cpus kwargs) (\<lambda>(cpus_infos, domains).
       try_finally body (exit_use_governor cpus_infos domains))"

subsection \<open>\<^verbatim>\<open>iter_domains\<close>\<close>

text \<open>
  The generator yields one domain per turn of its loop; its run is the list of the
  domains it yields, with the exception that ended it, if one did. \<open>next_iter\<close> stands
  for \<^verbatim>\<open>next(iter(cpus))\<close>, which picks an element of the set. The loop need not end,
  so the result is optional: \<open>None\<close> is a run that never finishes.
\<close>

partial_function (option) iter_domains_loop ::
  "(int list \<Rightarrow> int) \<Rightarrow> int list \<Rightarrow> state \<Rightarrow> ((int list list \<times> error option) \<times> state) option" where
  "iter_domains_loop next_iter cpus s =
     (if cpus = [] then Some (([], None), s)
      else
        let cpu = next_iter cpus in
        case get_related_cpus (CpuNum cpu) s of
          (Inl e, s') \<Rightarrow> Some (([], Some e), s')
        | (Inr domain, s') \<Rightarrow>
            Option.bind (iter_domains_loop next_iter (filter (\<lambda>c. c \<notin> set domain) cpus) s')
              (\<lambda>((domains, e), s''). Some ((domain # domains, e), s'')))"

definition iter_domains ::
  "(int list \<Rightarrow> int) \<Rightarrow> state \<Rightarrow> ((int list list \<times> error option) \<times> state) option" where
  "iter_domains next_iter s = iter_domains_loop next_iter (map int [0..<number_of_cpus s]) s"

section \<open>Notions used in the statements\<close>

text \<open>The state after the device has accepted the write of \<open>v\<close> to \<open>path\<close>.\<close>

definition written :: "string \<Rightarrow> string \<Rightarrow> state \<Rightarrow> state" where
  "written path v s =
     logged (Write path v) (s\<lparr>files := (files s)(link s path := holds s (link s path) v)\<rparr>)"

text \<open>The path \<^verbatim>\<open>set_governor_tunables\<close> writes a tunable to.\<close>

definition tunable_path :: "bool \<Rightarrow> string \<Rightarrow> string \<Rightarrow> string \<Rightarrow> string" where
  "tunable_path gov_per_cpu cpu governor tunable =
     (if gov_per_cpu then tunable_path_per_cpu cpu governor tunable
      else tunable_path_global governor tunable)"

text \<open>
  The test \<^verbatim>\<open>per_cpu is not None and gov_per_cpu != per_cpu\<close>, under which
  \<^verbatim>\<open>set_governor_tunables\<close> passes over the valid tunables.
\<close>

definition filtered_out :: "bool option \<Rightarrow> bool \<Rightarrow> bool" where
  "filtered_out per_cpu gov_per_cpu \<longleftrightarrow> per_cpu \<noteq> None \<and> Some gov_per_cpu \<noteq> per_cpu"

text \<open>
  What \<^verbatim>\<open>_list_governor_tunables\<close> answers for a governor with a name: the stored
  entry, else what the two directories show.
\<close>

definition discovered :: "state \<Rightarrow> string \<Rightarrow> string \<Rightarrow> string \<times> bool \<times> string list" where
  "discovered s cpu governor =
     (case governor_tunables s governor of
        Some data \<Rightarrow> data
      | None \<Rightarrow>
          (case dirs s (link s (''/sys/devices/system/cpu/'' @ cpu @ ''/cpufreq/'' @ governor)) of
             Some tunables \<Rightarrow> (governor, True, tunables)
           | None \<Rightarrow>
               (case dirs s (link s (''/sys/devices/system/cpu/cpufreq/'' @ governor)) of
                  Some tunables \<Rightarrow> (governor, False, tunables)
                | None \<Rightarrow> (governor, False, []))))"

text \<open>
  \<^verbatim>\<open>self._governor_tunables\<close> starts empty and is only filled by
  \<^verbatim>\<open>_list_governor_tunables\<close>, which stores under a governor a tuple that begins with
  that governor.
\<close>

definition cache_ok :: "state \<Rightarrow> bool" where
  "cache_ok s \<longleftrightarrow> (\<forall>g d. governor_tunables s g = Some d \<longrightarrow> fst d = g)"

text \<open>Which accesses are writes, and which of them change the governor of a numbered cpu.\<close>

fun is_write :: "access \<Rightarrow> bool" where
  "is_write (Write p v) = True"
| "is_write a = False"

definition governor_file :: "int \<Rightarrow> string" where
  "governor_file c = sysfs_cpufreq (cpu_str (CpuNum c)) ''scaling_governor''"

definition setspeed_file :: "int \<Rightarrow> string" where
  "setspeed_file c = sysfs_cpufreq (cpu_str (CpuNum c)) ''scaling_setspeed''"

fun strip_prefix :: "string \<Rightarrow> string \<Rightarrow> string option" where
  "strip_prefix [] ys = Some ys"
| "strip_prefix (x # xs) [] = None"
| "strip_prefix (x # xs) (y # ys) = (if x = y then strip_prefix xs ys else None)"

text \<open>A path of the form \<^verbatim>\<open>/sys/devices/system/cpu/cpu<number>/cpufreq/scaling_governor\<close>.\<close>

definition number_char :: "char \<Rightarrow> bool" where
  "number_char c \<longleftrightarrow> c \<in> set ''-0123456789''"

definition is_governor_file :: "string \<Rightarrow> bool" where
  "is_governor_file p =
     (case strip_prefix ''/sys/devices/system/cpu/cpu'' p of
        None \<Rightarrow> False
      | Some rest \<Rightarrow>
          takeWhile (\<lambda>c. c \<noteq> CHR ''/'') rest \<noteq> [] \<and>
          list_all number_char (takeWhile (\<lambda>c. c \<noteq> CHR ''/'') rest) \<and>
          dropWhile (\<lambda>c. c \<noteq> CHR ''/'') rest = ''/cpufreq/scaling_governor'')"

fun governor_write :: "access \<Rightarrow> bool" where
  "governor_write (Write p v) = is_governor_file p"
| "governor_write a = False"

text \<open>
  Every access a task records, from any state and whether it returns or raises, has
  the property \<open>Q\<close>; the task only adds to the record.
\<close>

definition emits :: "(access \<Rightarrow> bool) \<Rightarrow> 'a task \<Rightarrow> bool" where
  "emits Q m \<longleftrightarrow> (\<forall>s. \<exists>es. accesses (snd (m s)) = accesses s @ es \<and> list_all Q es)"

text \<open>What \<^verbatim>\<open>get_related_cpus(c)\<close> answers in a state: the related-cpus relation.\<close>

definition related_cpus_of :: "state \<Rightarrow> int \<Rightarrow> error + int list" where
  "related_cpus_of s c = fst (get_related_cpus (CpuNum c) s)"

text \<open>The domains of a run are pairwise disjoint.\<close>

fun pairwise_disjoint :: "int list list \<Rightarrow> bool" where
  "pairwise_disjoint [] = True"
| "pairwise_disjoint (d # ds) = ((\<forall>e \<in> set ds. set d \<inter> set e = {}) \<and> pairwise_disjoint ds)"

section \<open>Boards used in the examples\<close>

text \<open>One policy for cpu0 and cpu1: the cpufreq directory of cpu1 is that of cpu0.\<close>

definition policy_link :: "string \<Rightarrow> string" where
  "policy_link p =
     (case strip_prefix ''/sys/devices/system/cpu/cpu1/cpufreq/'' p of
        Some rest \<Rightarrow> ''/sys/devices/system/cpu/cpu0/cpufreq/'' @ rest
      | None \<Rightarrow> p)"

definition board :: state where
  "board = \<lparr>files = map_of
       [(''/sys/devices/system/cpu/cpu0/cpufreq/affected_cpus'', ''0 1''),
        (''/sys/devices/system/cpu/cpu0/cpufreq/scaling_governor'', ''ondemand''),
        (''/sys/devices/system/cpu/cpu0/cpufreq/scaling_available_governors'',
           ''ondemand performance userspace''),
        (''/sys/devices/system/cpu/cpu0/cpufreq/scaling_cur_freq'', ''1000000''),
        (''/sys/devices/system/cpu/cpu0/cpufreq/related_cpus'', ''0 1'')],
     dirs = Map.empty, link = policy_link,
     refuses = (\<lambda>p v. False), holds = (\<lambda>p v. Some v), online_cpus = [0, 1], accesses = [],
     governor_tunables = Map.empty, governors_memo = Map.empty, frequencies_memo = Map.empty,
     related_memo = Map.empty, number_of_cpus = 2\<rparr>"

text \<open>A single cpu whose current governor is missing from its list of available governors.\<close>

definition odd_board :: state where
  "odd_board = \<lparr>files = map_of
       [(''/sys/devices/system/cpu/cpu0/cpufreq/affected_cpus'', ''0''),
        (''/sys/devices/system/cpu/cpu0/cpufreq/scaling_governor'', ''ondemand''),
        (''/sys/devices/system/cpu/cpu0/cpufreq/scaling_available_governors'',
           ''performance powersave''),
        (''/sys/devices/system/cpu/cpu0/cpufreq/scaling_cur_freq'', ''1000000'')],
     dirs = Map.empty, link = (\<lambda>p. p),
     refuses = (\<lambda>p v. False), holds = (\<lambda>p v. Some v), online_cpus = [0], accesses = [],
     governor_tunables = Map.empty, governors_memo = Map.empty, frequencies_memo = Map.empty,
     related_memo = Map.empty, number_of_cpus = 1\<rparr>"

text \<open>
  A cpu on the \<^verbatim>\<open>interactive\<close> governor, with its per-policy tunables.
  \<^verbatim>\<open>boostpulse\<close> can be written and not read; \<^verbatim>\<open>hispeed_freq\<close> takes decimal numbers
  only.
\<close>

definition phone :: state where
  "phone = \<lparr>files = map_of
       [(''/sys/devices/system/cpu/cpu0/cpufreq/affected_cpus'', ''0''),
        (''/sys/devices/system/cpu/cpu0/cpufreq/scaling_governor'', ''interactive''),
        (''/sys/devices/system/cpu/cpu0/cpufreq/scaling_available_governors'',
           ''interactive performance''),
        (''/sys/devices/system/cpu/cpu0/cpufreq/scaling_cur_freq'', ''1000000''),
        (''/sys/devices/system/cpu/cpu0/cpufreq/interactive/hispeed_freq'', ''1200000''),
        (''/sys/devices/system/cpu/cpu0/cpufreq/interactive/timer_rate'', ''20000'')],
     dirs = map_of
       [(''/sys/devices/system/cpu/cpu0/cpufreq/interactive'',
           [''boostpulse'', ''hispeed_freq'', ''timer_rate''])],
     link = (\<lambda>p. p),
     refuses = (\<lambda>p v. p = ''/sys/devices/system/cpu/cpu0/cpufreq/interactive/hispeed_freq''
                        \<and> read_digits 0 v = None),
     holds = (\<lambda>p v. if p = ''/sys/devices/system/cpu/cpu0/cpufreq/interactive/boostpulse''
                      then None else Some v),
     online_cpus = [0], accesses = [],
     governor_tunables = Map.empty, governors_memo = Map.empty, frequencies_memo = Map.empty,
     related_memo = Map.empty, number_of_cpus = 1\<rparr>"

text \<open>Two cpus whose \<^verbatim>\<open>related_cpus\<close> files disagree: cpu1 names cpu0, cpu0 does not name cpu1.\<close>

definition skewed_board :: state where
  "skewed_board = \<lparr>files = map_of
       [(''/sys/devices/system/cpu/cpu0/cpufreq/related_cpus'', ''0''),
        (''/sys/devices/system/cpu/cpu1/cpufreq/related_cpus'', ''0 1'')],
     dirs = Map.empty, link = (\<lambda>p. p),
     refuses = (\<lambda>p v. False), holds = (\<lambda>p v. Some v), online_cpus = [0, 1], accesses = [],
     governor_tunables = Map.empty, governors_memo = Map.empty, frequencies_memo = Map.empty,
     related_memo = Map.empty, number_of_cpus = 2\<rparr>"


text \<open>A body that raises.\<close>

definition failing_body :: "unit task" where
  "failing_body = raise (UserError ''boom'')"

section \<open>Evaluation\<close>

lemma show_int_0: "show_int 0 = ''0''"
  by code_simp

lemma show_int_1: "show_int 1 = ''1''"
  by code_simp




lemmas task_defs = ret_def raise_def await_def except_TargetStableError_def
  except_ValueError_raise_def try_finally_def map_concurrently_def logged_def read_value_def
  read_int_def write_value_def list_directory_def execute_cat_def file_exists_def
  list_online_cpus_def memoized_method_def lift_def

lemmas module_defs = WRITE_ONLY_TUNABLES_def sysfs_cpufreq_def tunable_path_per_cpu_def
  tunable_path_global_def list_governors_def get_governor_def priv_list_governor_tunables_def
  get_tunable_def get_governor_tunables_def set_governor_tunables_def set_governor_def
  list_frequencies_def get_frequency_def set_frequency_def get_affected_cpus_def getitem_def
  get_cpu_info_def domains_of_def enter_use_governor_def set_per_cpu_tunables_def
  per_cpu_tunables_def global_tunables_dict_def global_tunables_def restore_governors_def
  restore_tunables_def exit_use_governor_def use_governor_def

lemmas py_defs = py_split_def py_strip_def py_int_def is_space_def digit_of_def dict_of_def
  dict_values_def

section \<open>Running tasks\<close>

lemma await_Inr: "m s = (Inr x, s1) \<Longrightarrow> await m f s = f x s1"
  by (simp add: await_def)

lemma await_Inl: "m s = (Inl e, s1) \<Longrightarrow> await m f s = (Inl e, s1)"
  by (simp add: await_def)

lemma await_ret [simp]: "await (ret x) f s = f x s"
  by (simp add: await_def ret_def)

lemma run_pair: "fst p = r \<Longrightarrow> p = (r, snd p)"
  by auto

lemma await_success:
  assumes "await m f s = (Inr y, s')"
  obtains x s1 where "m s = (Inr x, s1)" and "f x s1 = (Inr y, s')"
  using assms by (auto simp: await_def split: prod.splits sum.splits)

lemma await_fst_Inl:
  assumes "fst (m s) = Inl e"
  shows "fst (await m f s) = Inl e"
proof -
  obtain r s1 where run: "m s = (r, s1)" by (cases "m s")
  with assms have "r = Inl e" by simp
  with run show ?thesis by (simp add: await_def)
qed

section \<open>Writing tunables\<close>

lemma accesses_write_value [simp]:
  "accesses (snd (write_value path v verify s)) = accesses s @ [Write path v]"
  by (simp add: write_value_def logged_def Let_def)

lemma write_value_Inr:
  assumes "fst (write_value path v verify s) = Inr u"
  shows "write_value path v verify s = (Inr (), written path v s)"
  using assms by (simp add: write_value_def written_def Let_def split: if_splits)

lemma accesses_written [simp]: "accesses (written p v s) = accesses s @ [Write p v]"
  by (simp add: written_def logged_def)

lemma files_written [simp]:
  "files (written p v s) = (files s)(link s p := holds s (link s p) v)"
  by (simp add: written_def logged_def)

lemma link_written [simp]: "link (written p v s) = link s"
  by (simp add: written_def logged_def)

lemma accesses_fold_written:
  "accesses (fold (\<lambda>(t, v). written (f t) v) kvs s) = accesses s @ map (\<lambda>(t, v). Write (f t) v) kvs"
  by (induction kvs arbitrary: s) (auto simp: case_prod_beta)

lemma write_tunables_Cons:
  "write_tunables cpu gov gpc valid per_cpu ((t, v) # kvs) =
     (if t \<in> set valid then
        (if filtered_out per_cpu gpc then write_tunables cpu gov gpc valid per_cpu kvs
         else await (write_value (tunable_path gpc cpu gov t) v True)
                (\<lambda>u. write_tunables cpu gov gpc valid per_cpu kvs))
      else raise (TargetStableError (unexpected_tunable t gov cpu valid)))"
  by (simp add: filtered_out_def tunable_path_def)

lemma write_tunables_Inr:
  assumes "fst (write_tunables cpu gov gpc valid per_cpu kvs s) = Inr u"
  shows "write_tunables cpu gov gpc valid per_cpu kvs s
           = (Inr (), fold (\<lambda>(t, v). written (tunable_path gpc cpu gov t) v)
                        (if filtered_out per_cpu gpc then [] else kvs) s)"
  using assms
proof (induction kvs arbitrary: s)
  case Nil
  show ?case by (simp add: ret_def)
next
  case (Cons kv kvs)
  obtain t v where kv: "kv = (t, v)" by (cases kv)
  have t: "t \<in> set valid"
    using Cons.prems unfolding kv write_tunables_Cons
    by (simp add: raise_def split: if_splits)
  show ?case
  proof (cases "filtered_out per_cpu gpc")
    case True
    have "fst (write_tunables cpu gov gpc valid per_cpu kvs s) = Inr u"
      using Cons.prems t True unfolding kv write_tunables_Cons by simp
    from Cons.IH [OF this] show ?thesis
      unfolding kv write_tunables_Cons using t True by simp
  next
    case False
    define p where "p = tunable_path gpc cpu gov t"
    have run: "fst (await (write_value p v True)
                      (\<lambda>u. write_tunables cpu gov gpc valid per_cpu kvs) s) = Inr u"
      using Cons.prems t False unfolding kv write_tunables_Cons p_def by simp
    have w: "write_value p v True s = (Inr (), written p v s)"
    proof (cases "fst (write_value p v True s)")
      case (Inl e)
      then have "fst (await (write_value p v True)
                        (\<lambda>u. write_tunables cpu gov gpc valid per_cpu kvs) s) = Inl e"
        by (rule await_fst_Inl)
      with run show ?thesis by simp
    next
      case (Inr x)
      then show ?thesis by (rule write_value_Inr)
    qed
    have "fst (write_tunables cpu gov gpc valid per_cpu kvs (written p v s)) = Inr u"
      using run by (simp add: await_def w)
    from Cons.IH [OF this] show ?thesis
      unfolding kv write_tunables_Cons using t False
      by (simp add: await_def w [unfolded p_def] p_def)
  qed
qed

lemma write_tunables_append:
  assumes "write_tunables cpu gov gpc valid per_cpu kvs s = (Inr (), s')"
  shows "write_tunables cpu gov gpc valid per_cpu (kvs @ rest) s
           = write_tunables cpu gov gpc valid per_cpu rest s'"
  using assms
proof (induction kvs arbitrary: s)
  case Nil
  then show ?case by (simp add: ret_def)
next
  case (Cons kv kvs)
  obtain t v where kv: "kv = (t, v)" by (cases kv)
  have t: "t \<in> set valid"
    using Cons.prems unfolding kv write_tunables_Cons
    by (simp add: raise_def split: if_splits)
  show ?case
  proof (cases "filtered_out per_cpu gpc")
    case True
    have "write_tunables cpu gov gpc valid per_cpu kvs s = (Inr (), s')"
      using Cons.prems t True unfolding kv write_tunables_Cons by simp
    from Cons.IH [OF this] show ?thesis
      unfolding kv append_Cons write_tunables_Cons using t True by simp
  next
    case False
    have "await (write_value (tunable_path gpc cpu gov t) v True)
            (\<lambda>u. write_tunables cpu gov gpc valid per_cpu kvs) s = (Inr (), s')"
      using Cons.prems t False unfolding kv write_tunables_Cons by simp
    then obtain x s1 where
      w: "write_value (tunable_path gpc cpu gov t) v True s = (Inr x, s1)"
      and r: "write_tunables cpu gov gpc valid per_cpu kvs s1 = (Inr (), s')"
      by (rule await_success)
    from Cons.IH [OF r] show ?thesis
      unfolding kv append_Cons write_tunables_Cons using t False
      by (simp add: await_def w)
  qed
qed

lemma sublist_unexpected_tunable_name:
  "sublist tunable (unexpected_tunable tunable gov cpu valid)"
  unfolding unexpected_tunable_def by (rule sublist_appendI)

lemma sublist_unexpected_tunable_valid:
  "sublist (repr_list valid) (unexpected_tunable tunable gov cpu valid)"
proof -
  have "unexpected_tunable tunable gov cpu valid =
          (''Unexpected tunable '' @ tunable @ '' for governor '' @ gov @ '' on '' @ cpu @ ''.''
             @ [CHR 0x0A] @ ''Available tunables are: '') @ repr_list valid @ []"
    by (simp add: unexpected_tunable_def)
  then show ?thesis
    unfolding sublist_def by blast
qed

section \<open>Discovering tunables\<close>

lemma get_governor_name: "get_governor (CpuName (cpu_str cpu)) = get_governor cpu"
  by (simp add: get_governor_def)

lemma priv_list_Some:
  "g \<noteq> [] \<Longrightarrow> fst (priv_list_governor_tunables c (Some g) s) = Inr (discovered s (cpu_str c) g)"
  by (simp add: priv_list_governor_tunables_def discovered_def ret_def await_def
        except_TargetStableError_def list_directory_def logged_def Let_def
      split: option.splits)

lemma priv_list_None:
  assumes "fst (get_governor c s) = Inr g"
  shows "priv_list_governor_tunables c None s =
           priv_list_governor_tunables c (Some g)
             (logged (Read (sysfs_cpufreq (cpu_str c) ''scaling_governor'')) s)"
  using assms
  by (simp add: priv_list_governor_tunables_def get_governor_def read_value_def await_def ret_def
        Let_def split: option.splits)

lemma discovered_logged [simp]: "discovered (logged a s) c g = discovered s c g"
  by (simp add: discovered_def logged_def split: option.splits)

lemma discovered_governor: "cache_ok s \<Longrightarrow> fst (discovered s c g) = g"
  by (auto simp: discovered_def cache_ok_def split: option.splits)

lemma concurrently_length:
  "concurrently ts s = (Inr rs, s') \<Longrightarrow> length rs = length ts"
proof (induction ts arbitrary: s rs)
  case Nil
  then show ?case by (simp add: ret_def)
next
  case (Cons t ts)
  then show ?case
    by (auto simp: await_def ret_def split: prod.splits sum.splits)
qed

lemma map_fst_dict_set:
  "map fst (dict_set d k v) = (if k \<in> set (map fst d) then map fst d else map fst d @ [k])"
  by (induction d) (fastforce simp: image_iff)+

lemma keys_dict_set: "set (map fst (dict_set d k v)) = insert k (set (map fst d))"
  unfolding map_fst_dict_set by auto

lemma keys_foldl_dict_set:
  "set (map fst (foldl (\<lambda>d (k, v). dict_set d k v) d0 kvs))
     = set (map fst d0) \<union> set (map fst kvs)"
proof (induction kvs arbitrary: d0)
  case Nil
  show ?case by simp
next
  case (Cons kv kvs)
  obtain k v where kv: "kv = (k, v)" by (cases kv)
  show ?case
    unfolding kv foldl_Cons prod.case Cons.IH keys_dict_set by auto
qed

lemma keys_dict_of: "set (map fst (dict_of kvs)) = set (map fst kvs)"
  by (simp add: dict_of_def keys_foldl_dict_set del: set_map)

lemma map_concurrently_keys:
  assumes "map_concurrently f keys s = (Inr d, s')"
  shows "set (map fst d) = set keys"
proof -
  obtain rs where rs: "concurrently (map f keys) s = (Inr rs, s')" and d: "d = dict_of (zip keys rs)"
    using assms by (auto simp: map_concurrently_def await_def ret_def split: prod.splits sum.splits)
  have "length rs = length keys"
    using concurrently_length [OF rs] by simp
  then have "map fst (zip keys rs) = keys"
    by (rule map_fst_zip [OF sym])
  then show ?thesis
    unfolding d keys_dict_of by simp
qed


section \<open>The loop of \<^verbatim>\<open>iter_domains\<close>\<close>

lemma related_cpus_of_stable:
  "related_cpus_of (snd (get_related_cpus (CpuNum c) s)) c' = related_cpus_of s c'"
  by (auto simp: related_cpus_of_def get_related_cpus_def memoized_method_def await_def ret_def
        raise_def lift_def read_value_def logged_def Let_def
      split: option.splits sum.splits prod.splits)

lemma pairwise_disjoint_nth:
  "pairwise_disjoint ds \<Longrightarrow> i < length ds \<Longrightarrow> j < length ds \<Longrightarrow> i \<noteq> j \<Longrightarrow>
     set (ds ! i) \<inter> set (ds ! j) = {}"
proof (induction ds arbitrary: i j)
  case Nil
  then show ?case by simp
next
  case (Cons d ds)
  show ?case
  proof (cases i)
    case 0
    then obtain j' where j: "j = Suc j'" using Cons.prems(4) by (cases j) auto
    then show ?thesis using Cons.prems 0 by auto
  next
    case (Suc i')
    show ?thesis
    proof (cases j)
      case 0
      then show ?thesis using Cons.prems Suc by auto
    next
      case j: (Suc j')
      then show ?thesis using Cons.prems Suc Cons.IH [of i' j'] by auto
    qed
  qed
qed

lemma iter_domains_loop_Nil: "iter_domains_loop next_iter [] s = Some (([], None), s)"
  by (subst iter_domains_loop.simps) simp

lemma iter_domains_loop_step:
  assumes "cpus \<noteq> []" and "get_related_cpus (CpuNum (next_iter cpus)) s = (Inr d, s')"
  shows "iter_domains_loop next_iter cpus s =
           Option.bind (iter_domains_loop next_iter (filter (\<lambda>c. c \<notin> set d) cpus) s')
             (\<lambda>((domains, e), s''). Some ((d # domains, e), s''))"
  by (subst iter_domains_loop.simps) (simp add: assms)

lemma upt_2: "map int [0..<2] = [0, 1]"
  by (simp add: upt_rec)

lemma related_cpus_of_run:
  assumes "related_cpus_of s c = Inr d"
  shows "get_related_cpus (CpuNum c) s = (Inr d, snd (get_related_cpus (CpuNum c) s))"
  using assms unfolding related_cpus_of_def by (rule run_pair)

lemma iter_domains_loop_partition:
  assumes pick: "\<And>xs. xs \<noteq> [] \<Longrightarrow> next_iter xs \<in> set xs"
    and rel: "\<And>c. c \<in> set cpus \<Longrightarrow>
                \<exists>d. related_cpus_of s c = Inr d \<and> c \<in> set d \<and> set d \<subseteq> set cpus \<and>
                    (\<forall>c' \<in> set d. \<exists>d'. related_cpus_of s c' = Inr d' \<and> set d' = set d)"
  shows "\<exists>domains s'. iter_domains_loop next_iter cpus s = Some ((domains, None), s') \<and>
           \<Union> (set ` set domains) = set cpus \<and> pairwise_disjoint domains"
  using rel
proof (induction "length cpus" arbitrary: cpus s rule: less_induct)
  case less
  show ?case
  proof (cases "cpus = []")
    case True
    then show ?thesis by (simp add: iter_domains_loop_Nil)
  next
    case False
    define cpu where "cpu = next_iter cpus"
    have cpu: "cpu \<in> set cpus"
      unfolding cpu_def by (rule pick [OF False])
    obtain d where d: "related_cpus_of s cpu = Inr d" and cd: "cpu \<in> set d"
      and dsub: "set d \<subseteq> set cpus"
      and dcls: "\<forall>c' \<in> set d. \<exists>d'. related_cpus_of s c' = Inr d' \<and> set d' = set d"
      using less.prems [OF cpu] by blast
    define s1 where "s1 = snd (get_related_cpus (CpuNum cpu) s)"
    define cpus' where "cpus' = filter (\<lambda>c. c \<notin> set d) cpus"
    have run: "get_related_cpus (CpuNum (next_iter cpus)) s = (Inr d, s1)"
      unfolding s1_def cpu_def [symmetric] by (rule related_cpus_of_run [OF d])
    have same: "related_cpus_of s1 c = related_cpus_of s c" for c
      unfolding s1_def by (rule related_cpus_of_stable)
    have shorter: "length cpus' < length cpus"
      unfolding cpus'_def using cpu cd
      by (metis (mono_tags, lifting) length_filter_less)
    have rel': "\<exists>e. related_cpus_of s1 c = Inr e \<and> c \<in> set e \<and> set e \<subseteq> set cpus' \<and>
                    (\<forall>c' \<in> set e. \<exists>e'. related_cpus_of s1 c' = Inr e' \<and> set e' = set e)"
      if c: "c \<in> set cpus'" for c
    proof -
      have c_in: "c \<in> set cpus" and c_out: "c \<notin> set d"
        using c by (auto simp: cpus'_def)
      obtain e where e: "related_cpus_of s c = Inr e" and ce: "c \<in> set e"
        and esub: "set e \<subseteq> set cpus"
        and ecls: "\<forall>c' \<in> set e. \<exists>e'. related_cpus_of s c' = Inr e' \<and> set e' = set e"
        using less.prems [OF c_in] by blast
      have "set e \<inter> set d = {}"
      proof (rule ccontr)
        assume "set e \<inter> set d \<noteq> {}"
        then obtain x where xe: "x \<in> set e" and xd: "x \<in> set d" by blast
        from ecls xe obtain e' where "related_cpus_of s x = Inr e'" "set e' = set e" by blast
        moreover from dcls xd obtain d' where "related_cpus_of s x = Inr d'" "set d' = set d" by blast
        ultimately have "set e = set d" by simp
        then show False using ce c_out by simp
      qed
      then have "set e \<subseteq> set cpus'"
        using esub by (auto simp: cpus'_def)
      then show ?thesis
        using e ce ecls by (auto simp: same)
    qed
    obtain domains s' where
      loop: "iter_domains_loop next_iter cpus' s1 = Some ((domains, None), s')"
      and union: "\<Union> (set ` set domains) = set cpus'" and disj: "pairwise_disjoint domains"
      using less.hyps [OF shorter rel'] by blast
    have "iter_domains_loop next_iter cpus s = Some ((d # domains, None), s')"
      using iter_domains_loop_step [of cpus next_iter s d s1, OF False run] loop
      by (simp add: cpus'_def)
    moreover have "\<Union> (set ` set (d # domains)) = set cpus"
      using union dsub by (auto simp: cpus'_def)
    moreover have "pairwise_disjoint (d # domains)"
      using disj union by (auto simp: cpus'_def)
    ultimately show ?thesis by blast
  qed
qed


section \<open>Paths\<close>

lemma digit_char_in: "d < 10 \<Longrightarrow> digit_char d \<in> set ''0123456789''"
proof -
  assume "d < 10"
  then have "d = 0 \<or> d = 1 \<or> d = 2 \<or> d = 3 \<or> d = 4 \<or> d = 5 \<or> d = 6 \<or> d = 7 \<or> d = 8 \<or> d = 9"
    by arith
  then show ?thesis
    by (elim disjE) (simp_all add: digit_char_def)
qed

lemma show_nat_all:
  assumes "\<And>d. d < 10 \<Longrightarrow> P (digit_char d)"
  shows "list_all P (show_nat n)"
proof (induction n rule: show_nat.induct)
  case (1 n)
  show ?case
  proof (cases "n < 10")
    case True
    then show ?thesis
      using assms [of n] by (subst show_nat.simps) simp
  next
    case False
    then show ?thesis
      using 1 assms [of "n mod 10"] by (subst show_nat.simps) simp
  qed
qed

lemma show_nat_nonempty: "show_nat n \<noteq> []"
  by (subst show_nat.simps) simp

lemma show_int_nonempty: "show_int i \<noteq> []"
  by (simp add: show_int_def show_nat_nonempty)

lemma digit_char_number: "d < 10 \<Longrightarrow> number_char (digit_char d)"
  using digit_char_in [of d] by (simp add: number_char_def)

lemma digit_char_no_slash: "d < 10 \<Longrightarrow> digit_char d \<noteq> CHR ''/''"
  using digit_char_in [of d] by auto

lemma show_int_list_all: "list_all number_char (show_int i)"
  using show_nat_all [of number_char, OF digit_char_number]
  by (simp add: show_int_def number_char_def)

lemma show_int_no_slash: "CHR ''/'' \<notin> set (show_int i)"
proof -
  have "list_all (\<lambda>c. c \<noteq> CHR ''/'') (show_nat n)" for n
    by (rule show_nat_all) (rule digit_char_no_slash)
  then have "CHR ''/'' \<notin> set (show_nat n)" for n
    unfolding list_all_iff by blast
  then show ?thesis
    by (simp add: show_int_def)
qed

lemma takeWhile_slash: "CHR ''/'' \<notin> set xs \<Longrightarrow> takeWhile (\<lambda>c. c \<noteq> CHR ''/'') (xs @ CHR ''/'' # ys) = xs"
  by (induction xs) auto

lemma dropWhile_slash: "CHR ''/'' \<notin> set xs \<Longrightarrow> dropWhile (\<lambda>c. c \<noteq> CHR ''/'') (xs @ CHR ''/'' # ys) = CHR ''/'' # ys"
  by (induction xs) auto

lemma is_governor_file_governor_file [simp]: "is_governor_file (governor_file c)"
  using takeWhile_slash [OF show_int_no_slash, of c "''cpufreq/scaling_governor''"]
    dropWhile_slash [OF show_int_no_slash, of c "''cpufreq/scaling_governor''"]
  by (simp add: is_governor_file_def governor_file_def sysfs_cpufreq_def show_int_nonempty show_int_list_all)

lemma not_governor_file_setspeed [simp]: "\<not> is_governor_file (setspeed_file c)"
  using dropWhile_slash [OF show_int_no_slash, of c "''cpufreq/scaling_setspeed''"]
  by (simp add: is_governor_file_def setspeed_file_def sysfs_cpufreq_def)

lemma not_governor_file_global [simp]: "\<not> is_governor_file (tunable_path_global gov tun)"
  by (simp add: is_governor_file_def tunable_path_global_def number_char_def)

lemma not_governor_file_per_cpu [simp]:
  "\<not> is_governor_file (tunable_path_per_cpu (cpu_str (CpuNum c)) gov tun)"
proof -
  have "dropWhile (\<lambda>c. c \<noteq> CHR ''/'') (show_int c @ CHR ''/'' # (''cpufreq/'' @ gov @ ''/'' @ tun))
          = CHR ''/'' # (''cpufreq/'' @ gov @ ''/'' @ tun)"
    by (rule dropWhile_slash [OF show_int_no_slash])
  moreover have "gov @ ''/'' @ tun \<noteq> ''scaling_governor''"
  proof
    assume a: "gov @ ''/'' @ tun = ''scaling_governor''"
    have "CHR ''/'' \<in> set (gov @ ''/'' @ tun)" by simp
    then show False unfolding a by simp
  qed
  ultimately show ?thesis
    by (simp add: is_governor_file_def tunable_path_per_cpu_def)
qed

section \<open>What a task records\<close>

lemma emitsI:
  assumes "\<And>s. \<exists>es. accesses (snd (m s)) = accesses s @ es \<and> list_all Q es"
  shows "emits Q m"
  using assms unfolding emits_def by blast

lemma emitsD:
  assumes "emits Q m"
  obtains es where "accesses (snd (m s)) = accesses s @ es" and "list_all Q es"
  using assms unfolding emits_def by blast

lemma emits_mono:
  assumes "emits Q m" and "\<And>a. Q a \<Longrightarrow> R a"
  shows "emits R m"
proof (rule emitsI)
  fix s
  obtain es where "accesses (snd (m s)) = accesses s @ es" and "list_all Q es"
    using assms(1) by (rule emitsD)
  then show "\<exists>es. accesses (snd (m s)) = accesses s @ es \<and> list_all R es"
    using assms(2) by (auto simp: list_all_iff)
qed

lemma emits_ret: "emits Q (ret x)"
  by (rule emitsI) (simp add: ret_def)

lemma emits_raise: "emits Q (raise e)"
  by (rule emitsI) (simp add: raise_def)

lemma emits_lift: "emits Q (lift r)"
  by (cases r) (simp_all add: lift_def emits_ret emits_raise)

lemma emits_await:
  assumes "emits Q m" and "\<And>x. emits Q (f x)"
  shows "emits Q (await m f)"
proof (rule emitsI)
  fix s
  obtain es where es: "accesses (snd (m s)) = accesses s @ es" "list_all Q es"
    using assms(1) by (rule emitsD)
  obtain r s1 where m: "m s = (r, s1)" by (cases "m s")
  show "\<exists>es. accesses (snd (await m f s)) = accesses s @ es \<and> list_all Q es"
  proof (cases r)
    case (Inl e)
    then show ?thesis using es m by (auto simp: await_def)
  next
    case (Inr x)
    obtain es2 where "accesses (snd (f x s1)) = accesses s1 @ es2" "list_all Q es2"
      using assms(2) by (rule emitsD)
    then have "accesses (snd (await m f s)) = accesses s @ (es @ es2) \<and> list_all Q (es @ es2)"
      using es m Inr by (simp add: await_def)
    then show ?thesis by blast
  qed
qed

lemma emits_handler:
  assumes "emits Q m" and "\<And>e. emits Q (h e)"
  shows "emits Q (except_TargetStableError m h)"
proof (rule emitsI)
  fix s
  obtain es where es: "accesses (snd (m s)) = accesses s @ es" "list_all Q es"
    using assms(1) by (rule emitsD)
  obtain r s1 where m: "m s = (r, s1)" by (cases "m s")
  show "\<exists>es. accesses (snd (except_TargetStableError m h s)) = accesses s @ es \<and> list_all Q es"
  proof (cases "\<exists>msg. r = Inl (TargetStableError msg)")
    case True
    then obtain msg where r: "r = Inl (TargetStableError msg)" by blast
    obtain es2 where "accesses (snd (h (TargetStableError msg) s1)) = accesses s1 @ es2"
      "list_all Q es2"
      using assms(2) by (rule emitsD)
    then have "accesses (snd (except_TargetStableError m h s)) = accesses s @ (es @ es2)
                 \<and> list_all Q (es @ es2)"
      using es m r by (simp add: except_TargetStableError_def)
    then show ?thesis by blast
  next
    case False
    then have "except_TargetStableError m h s = (r, s1)"
      using m by (auto simp: except_TargetStableError_def split: sum.splits error.splits)
    then show ?thesis using es m by auto
  qed
qed

lemma emits_reraise:
  assumes "emits Q m"
  shows "emits Q (except_ValueError_raise m e)"
proof (rule emitsI)
  fix s
  obtain es where es: "accesses (snd (m s)) = accesses s @ es" "list_all Q es"
    using assms by (rule emitsD)
  have "snd (except_ValueError_raise m e s) = snd (m s)"
    by (auto simp: except_ValueError_raise_def split: prod.splits sum.splits error.splits)
  then show "\<exists>es. accesses (snd (except_ValueError_raise m e s)) = accesses s @ es \<and> list_all Q es"
    using es by auto
qed

lemma emits_memoized:
  assumes "emits Q producer" and "\<And>f s. accesses (cache_update f s) = accesses s"
  shows "emits Q (memoized_method cache cache_update key producer)"
proof (rule emitsI)
  fix s
  obtain es where es: "accesses (snd (producer s)) = accesses s @ es" "list_all Q es"
    using assms(1) by (rule emitsD)
  show "\<exists>es. accesses (snd (memoized_method cache cache_update key producer s)) = accesses s @ es
          \<and> list_all Q es"
  proof (cases "cache s key")
    case (Some v)
    then show ?thesis by (simp add: memoized_method_def)
  next
    case None
    then have "accesses (snd (memoized_method cache cache_update key producer s))
                 = accesses (snd (producer s))"
      using assms(2) by (auto simp: memoized_method_def split: prod.splits sum.splits)
    then show ?thesis using es by auto
  qed
qed

lemma emits_concurrently:
  assumes "\<And>t. t \<in> set ts \<Longrightarrow> emits Q t"
  shows "emits Q (concurrently ts)"
  using assms by (induction ts) (auto intro!: emits_ret emits_await)

lemma emits_for_each:
  assumes "\<And>x. emits Q (f x)"
  shows "emits Q (for_each f xs)"
  using assms by (induction xs) (auto intro!: emits_ret emits_await)

lemma emits_map_concurrently:
  assumes "\<And>k. emits Q (f k)"
  shows "emits Q (map_concurrently f keys)"
  unfolding map_concurrently_def
  by (intro emits_await emits_ret emits_concurrently) (auto simp: assms)

lemma emits_if: "emits Q a \<Longrightarrow> emits Q b \<Longrightarrow> emits Q (if c then a else b)"
  by simp

lemma emits_case_prod: "(\<And>a b. emits Q (f a b)) \<Longrightarrow> emits Q (case_prod f x)"
  by (cases x) simp

lemma emits_case_option:
  "emits Q a \<Longrightarrow> (\<And>x. emits Q (f x)) \<Longrightarrow> emits Q (case_option a f x)"
  by (cases x) simp_all

lemma emits_case_sum:
  "(\<And>x. emits Q (f x)) \<Longrightarrow> (\<And>x. emits Q (g x)) \<Longrightarrow> emits Q (case_sum f g x)"
  by (cases x) simp_all

lemma emits_depending:
  assumes "\<And>s0. emits Q (F s0)"
  shows "emits Q (\<lambda>s. F s s)"
proof (rule emitsI)
  fix s
  obtain es where "accesses (snd (F s s)) = accesses s @ es" "list_all Q es"
    using assms [of s] by (rule emitsD)
  then show "\<exists>es. accesses (snd (F s s)) = accesses s @ es \<and> list_all Q es" by blast
qed

lemma emits_read_value: "Q (Read p) \<Longrightarrow> emits Q (read_value p)"
  by (rule emitsI) (simp add: read_value_def logged_def split: option.splits)

lemma emits_list_directory: "Q (ListDir p) \<Longrightarrow> emits Q (list_directory p)"
  by (rule emitsI) (simp add: list_directory_def logged_def split: option.splits)

lemma emits_execute_cat: "Q (Execute (''cat '' @ p)) \<Longrightarrow> emits Q (execute_cat p)"
  by (rule emitsI) (simp add: execute_cat_def logged_def split: option.splits)

lemma emits_file_exists: "Q (Exists p) \<Longrightarrow> emits Q (file_exists p)"
  by (rule emitsI) (simp add: file_exists_def logged_def)

lemma emits_write_value: "Q (Write p v) \<Longrightarrow> emits Q (write_value p v verify)"
  by (rule emitsI) simp

lemma emits_list_online_cpus: "emits Q list_online_cpus"
  by (rule emitsI) (simp add: list_online_cpus_def)

lemma emits_getitem: "emits Q (getitem d k)"
  by (simp add: getitem_def emits_ret emits_raise split: option.splits)

lemmas emits_intros = emits_ret emits_raise emits_lift emits_await emits_handler emits_reraise
  emits_concurrently emits_for_each emits_map_concurrently emits_if emits_case_prod
  emits_case_option emits_case_sum emits_list_online_cpus emits_getitem

section \<open>The accesses of the methods\<close>

lemma reads_get_governor: "emits (\<lambda>a. \<not> is_write a) (get_governor cpu)"
  by (simp add: get_governor_def Let_def emits_read_value)

lemma reads_read_int: "emits (\<lambda>a. \<not> is_write a) (read_int p)"
  unfolding read_int_def
  by (intro emits_await emits_read_value emits_case_sum emits_ret emits_raise) simp

lemma reads_get_frequency: "emits (\<lambda>a. \<not> is_write a) (get_frequency cpu cpuinfo)"
  by (simp add: get_frequency_def Let_def reads_read_int)

lemma reads_list_governors: "emits (\<lambda>a. \<not> is_write a) (list_governors cpu)"
  unfolding list_governors_def Let_def
  by (intro emits_memoized emits_await emits_read_value emits_ret) simp_all


lemma reads_list_frequencies: "emits (\<lambda>a. \<not> is_write a) (list_frequencies cpu)"
  unfolding list_frequencies_def Let_def
  by (intro emits_memoized emits_intros emits_execute_cat emits_read_value emits_file_exists)
     simp_all

lemma reads_priv_list: "emits (\<lambda>a. \<not> is_write a) (priv_list_governor_tunables cpu governor)"
proof -
  have probe: "emits (\<lambda>a. \<not> is_write a)
      (await
        (except_TargetStableError
           (await (list_directory (''/sys/devices/system/cpu/'' @ c @ ''/cpufreq/'' @ g))
              (\<lambda>tunables. ret (True, tunables)))
           (\<lambda>e. except_TargetStableError
              (await (list_directory (''/sys/devices/system/cpu/cpufreq/'' @ g))
                 (\<lambda>tunables. ret (False, tunables)))
              (\<lambda>e. ret (False, []))))
        (\<lambda>(per_cpu, tunables).
           let data = (g, per_cpu, tunables)
           in (\<lambda>s. (Inr data,
                    if g \<noteq> []
                    then s\<lparr>governor_tunables := (governor_tunables s)(g \<mapsto> data)\<rparr>
                    else s))))" for c g
  proof -
    have store: "emits (\<lambda>a. \<not> is_write a)
        (\<lambda>s. (Inr data, if g \<noteq> [] then s\<lparr>governor_tunables := (governor_tunables s)(g \<mapsto> data)\<rparr> else s))"
      for data :: "string \<times> bool \<times> string list"
      by (rule emitsI) simp
    show ?thesis
      unfolding Let_def
      by (intro emits_await emits_handler emits_list_directory emits_ret emits_case_prod store)
         simp_all
  qed
  have look: "emits (\<lambda>a. \<not> is_write a)
      (\<lambda>s. case governor_tunables s g of Some data \<Rightarrow> (Inr data, s) | None \<Rightarrow> P s)"
    if P: "emits (\<lambda>a. \<not> is_write a) P" for g and P :: "(string \<times> bool \<times> string list) task"
  proof (rule emitsI)
    fix s
    obtain es where "accesses (snd (P s)) = accesses s @ es" "list_all (\<lambda>a. \<not> is_write a) es"
      using P by (rule emitsD)
    then show "\<exists>es. accesses (snd (case governor_tunables s g of Some data \<Rightarrow> (Inr data, s) | None \<Rightarrow> P s))
                  = accesses s @ es \<and> list_all (\<lambda>a. \<not> is_write a) es"
      by (cases "governor_tunables s g") auto
  qed
  show ?thesis
    unfolding priv_list_governor_tunables_def Let_def
    by (intro emits_await emits_case_option reads_get_governor emits_ret emits_if emits_raise
          look probe [unfolded Let_def])
qed




lemma reads_domains_of: "emits (\<lambda>a. \<not> is_write a) (domains_of cpus_infos)"
  unfolding domains_of_def
  by (intro emits_await emits_for_each emits_ret) (simp add: emits_ret emits_raise split: list.splits)

lemma emits_write_tunables:
  "emits (\<lambda>a. \<exists>t v. a = Write (tunable_path gpc cpu gov t) v)
     (write_tunables cpu gov gpc valid per_cpu kwargs)"
proof (induction kwargs)
  case Nil
  show ?case by (simp add: emits_ret)
next
  case (Cons kv kwargs)
  obtain t v where kv: "kv = (t, v)" by (cases kv)
  show ?case
    unfolding kv write_tunables_Cons
    by (intro emits_if emits_await emits_write_value emits_raise Cons.IH) blast
qed

lemma set_governor_tunables_no_governor_write:
  assumes "cpu_str cpu = cpu_str (CpuNum c)"
  shows "emits (\<lambda>a. \<not> governor_write a) (set_governor_tunables cpu governor per_cpu kwargs)"
proof -
  have w: "emits (\<lambda>a. \<not> governor_write a)
             (write_tunables (cpu_str (CpuNum c)) gov gpc valid per_cpu kwargs)" for gov gpc valid
    by (rule emits_mono [OF emits_write_tunables])
       (auto simp: tunable_path_def simp del: cpu_str.simps split: if_splits)
  have r: "emits (\<lambda>a. \<not> governor_write a) (priv_list_governor_tunables x governor)" for x
    by (rule emits_mono [OF reads_priv_list]) (case_tac a, simp_all)
  show ?thesis
    unfolding set_governor_tunables_def Let_def assms
    by (intro emits_if emits_ret emits_await emits_case_prod r w)
qed



lemma reads_no_governor_write:
  "emits (\<lambda>a. \<not> is_write a) m \<Longrightarrow> emits (\<lambda>a. \<not> governor_write a) m"
  by (erule emits_mono) (case_tac a, simp_all)

lemma set_frequency_writes:
  assumes "cpu_str cpu = cpu_str (CpuNum c)"
  shows "emits (\<lambda>a. is_write a \<longrightarrow> a = Write (setspeed_file c) (show_int f))
           (set_frequency cpu f exact)"
proof -
  have r: "emits (\<lambda>a. is_write a \<longrightarrow> a = Write (setspeed_file c) (show_int f)) m"
    if "emits (\<lambda>a. \<not> is_write a) m" for m :: "'a task"
    using that by (rule emits_mono) simp
  show ?thesis
    unfolding set_frequency_def Let_def assms
    by (intro emits_reraise emits_await emits_if emits_ret emits_raise emits_write_value
          r [OF reads_list_frequencies] r [OF reads_get_governor] r [OF reads_get_frequency])
       (simp add: setspeed_file_def)
qed

lemma set_frequency_no_governor_write:
  assumes "cpu_str cpu = cpu_str (CpuNum c)"
  shows "emits (\<lambda>a. \<not> governor_write a) (set_frequency cpu f exact)"
  by (rule emits_mono [OF set_frequency_writes [OF assms]]) (case_tac a, auto)

lemma set_governor_tunables_Nil: "set_governor_tunables cpu governor per_cpu [] = ret ()"
  by (simp add: set_governor_tunables_def)

lemma set_governor_writes:
  assumes "cpu_str cpu = cpu_str (CpuNum c)"
  shows "emits (\<lambda>a. is_write a \<longrightarrow> a = Write (governor_file c) governor)
           (set_governor cpu governor [])"
proof -
  have r: "emits (\<lambda>a. is_write a \<longrightarrow> a = Write (governor_file c) governor) m"
    if "emits (\<lambda>a. \<not> is_write a) m" for m :: "'a task"
    using that by (rule emits_mono) simp
  show ?thesis
    unfolding set_governor_def Let_def assms set_governor_tunables_Nil
    by (intro emits_await emits_if emits_raise emits_ret emits_write_value
          r [OF reads_list_governors])
       (simp add: governor_file_def)
qed



lemma emits_run:
  assumes "emits Q m" and "m s = (r, s')"
  shows "\<exists>es. accesses s' = accesses s @ es \<and> list_all Q es"
  using emitsD [OF assms(1), of s] assms(2) by (metis snd_conv)

lemma set_py_set [simp]: "set (py_set xs) = set xs"
  by (induction xs) auto





lemma restore_governors_writes:
  "emits (\<lambda>a. is_write a \<longrightarrow> governor_write a) (restore_governors cpus_infos domains)"
proof -
  have one: "emits (\<lambda>a. is_write a \<longrightarrow> governor_write a) (set_governor (CpuNum cpu) g [])" for cpu g
    by (rule emits_mono [OF set_governor_writes [OF refl]]) auto
  show ?thesis
    unfolding restore_governors_def
    by (intro emits_await emits_for_each emits_getitem emits_ret emits_concurrently)
       (auto simp: one)
qed

lemma set_per_cpu_tunables_no_governor_write:
  "emits (\<lambda>a. \<not> governor_write a) (set_per_cpu_tunables cpus_infos cpu)"
  unfolding set_per_cpu_tunables_def
  by (intro emits_await emits_getitem emits_case_prod emits_if emits_ret
        set_governor_tunables_no_governor_write [OF refl] set_frequency_no_governor_write [OF refl])

lemma restore_tunables_no_governor_write:
  "emits (\<lambda>a. \<not> governor_write a) (restore_tunables cpus_infos domains)"
proof -
  have p: "emits (\<lambda>a. \<not> governor_write a) (per_cpu_tunables cpus_infos domains)"
    unfolding per_cpu_tunables_def
    by (rule emits_concurrently) (auto simp: set_per_cpu_tunables_no_governor_write)
  have g: "emits (\<lambda>a. \<not> governor_write a) (global_tunables cpus_infos)"
    unfolding global_tunables_def
    by (rule emits_concurrently)
       (auto simp: set_governor_tunables_no_governor_write [OF refl])
  show ?thesis
    unfolding restore_tunables_def
    by (intro emits_await emits_ret emits_concurrently) (auto simp: p g)
qed

text \<open>
  \<^verbatim>\<open>get_governor_tunables\<close> never returns \<^verbatim>\<open>boostpulse\<close> for the \<^verbatim>\<open>interactive\<close>
  governor: the name is filtered out before anything is read.
\<close>

lemma get_governor_tunables_skips_boostpulse:
  assumes cache: "cache_ok s"
    and current: "fst (get_governor cpu s) = Inr ''interactive''"
    and m: "fst (get_governor_tunables cpu s) = Inr m"
  shows "''boostpulse'' \<notin> set (map fst m)"
proof -
  obtain g pc tl where D: "discovered s (cpu_str cpu) ''interactive'' = (g, pc, tl)"
    by (cases "discovered s (cpu_str cpu) ''interactive''")
  have g: "g = ''interactive''"
    using discovered_governor [OF cache, of "cpu_str cpu" "''interactive''"] D by simp
  have cur: "fst (get_governor (CpuName (cpu_str cpu)) s) = Inr ''interactive''"
    using current by (simp add: get_governor_name)
  define s2 where "s2 = snd (priv_list_governor_tunables (CpuName (cpu_str cpu)) None s)"
  have "fst (priv_list_governor_tunables (CpuName (cpu_str cpu)) None s) = Inr (''interactive'', pc, tl)"
    unfolding priv_list_None [OF cur] by (simp add: priv_list_Some D g)
  then have l2: "priv_list_governor_tunables (CpuName (cpu_str cpu)) None s
              = (Inr (''interactive'', pc, tl), s2)"
    unfolding s2_def by (rule run_pair)
  have run: "get_governor_tunables cpu s =
          map_concurrently (get_tunable (cpu_str cpu) ''interactive'')
            (filter (\<lambda>t. t \<notin> set [''boostpulse'']) tl) s2"
    by (simp add: get_governor_tunables_def await_def l2 Let_def WRITE_ONLY_TUNABLES_def)
  have "map_concurrently (get_tunable (cpu_str cpu) ''interactive'')
            (filter (\<lambda>t. t \<notin> set [''boostpulse'']) tl) s2 = (Inr m, snd (get_governor_tunables cpu s))"
    using m unfolding run [symmetric] by (rule run_pair)
  then have "set (map fst m) = set (filter (\<lambda>t. t \<notin> set [''boostpulse'']) tl)"
    by (rule map_concurrently_keys)
  then show ?thesis by simp
qed






section \<open>The claims\<close>

text \<open>
  C10. Called without tunables, \<^verbatim>\<open>set_governor_tunables\<close> returns at once, whatever the
  cpu, the governor (known to the device or not) and the \<open>per_cpu\<close> filter: the call
  succeeds and the state it returns is the state it was given, so no file was read or
  written, no access was recorded and no cache was filled.
\<close>

theorem set_governor_tunables_no_kwargs:
  "set_governor_tunables cpu governor per_cpu [] s = (Inr (), s)"
  by (simp add: set_governor_tunables_def ret_def)

text \<open>
  C1. On \<open>board\<close>, cpu0 and cpu1 share one policy whose governor is \<^verbatim>\<open>ondemand\<close>.
  \<^verbatim>\<open>use_governor('performance', cpus=[1])\<close> with a body that returns normally writes the
  new governor through cpu0, the first of the affected cpus, and then fails in its
  \<^verbatim>\<open>finally\<close> block on \<^verbatim>\<open>cpus_infos[0]\<close>: the call ends with \<^verbatim>\<open>KeyError\<close> and
  cpu1 is left on \<^verbatim>\<open>performance\<close>.
\<close>

theorem use_governor_subset_not_restored:
  "fst (get_governor (CpuNum 1) board) = Inr ''ondemand'' \<and>
   fst (use_governor ''performance'' [1] [] (ret ()) board) = Inl (KeyError ''0'') \<and>
   fst (get_governor (CpuNum 1) (snd (use_governor ''performance'' [1] [] (ret ()) board)))
     = Inr ''performance''"
  by (simp add: task_defs module_defs py_defs board_def policy_link_def show_int_0 show_int_1
        Let_def)

text \<open>
  C2. The same call with a body that raises: the \<^verbatim>\<open>finally\<close> block is entered and fails
  on \<^verbatim>\<open>cpus_infos[0]\<close> before it has restored anything. The caller receives the
  \<^verbatim>\<open>KeyError\<close>, with the exception of the body as its context, and cpu1 is left on
  \<^verbatim>\<open>performance\<close>.
\<close>

theorem use_governor_subset_not_restored_raising:
  "fst (use_governor ''performance'' [1] [] failing_body board)
     = Inl (During (KeyError ''0'') (UserError ''boom'')) \<and>
   fst (get_governor (CpuNum 1) (snd (use_governor ''performance'' [1] [] failing_body board)))
     = Inr ''performance''"
  by (simp add: task_defs module_defs py_defs board_def policy_link_def failing_body_def
        show_int_0 show_int_1 Let_def)

text \<open>
  C3, as the code has it. When the statements before \<^verbatim>\<open>yield\<close> succeeded, the body
  raised \<open>eb\<close> and the \<^verbatim>\<open>finally\<close> block raised \<open>er\<close>, the exception that reaches
  the caller is \<open>er\<close>, the failure of the restoration; the exception of the body is
  attached to it as its context.
\<close>

theorem use_governor_restore_failure_surfaces:
  assumes entered: "fst (enter_use_governor governor cpus kwargs s) = Inr (cpus_infos, domains)"
    and body_raises: "fst (body (snd (enter_use_governor governor cpus kwargs s))) = Inl eb"
    and restore_raises:
      "fst (exit_use_governor cpus_infos domains
              (snd (body (snd (enter_use_governor governor cpus kwargs s))))) = Inl er"
  shows "use_governor governor cpus kwargs body s =
           (Inl (During er eb),
            snd (exit_use_governor cpus_infos domains
                   (snd (body (snd (enter_use_governor governor cpus kwargs s))))))"
proof -
  define s1 where "s1 = snd (enter_use_governor governor cpus kwargs s)"
  define s2 where "s2 = snd (body s1)"
  define s3 where "s3 = snd (exit_use_governor cpus_infos domains s2)"
  have e: "enter_use_governor governor cpus kwargs s = (Inr (cpus_infos, domains), s1)"
    unfolding s1_def by (rule run_pair [OF entered])
  have b: "body s1 = (Inl eb, s2)"
    unfolding s2_def s1_def by (rule run_pair [OF body_raises])
  have r: "exit_use_governor cpus_infos domains s2 = (Inl er, s3)"
    unfolding s3_def s2_def s1_def by (rule run_pair [OF restore_raises])
  have "use_governor governor cpus kwargs body s =
          try_finally body (exit_use_governor cpus_infos domains) s1"
    by (simp add: use_governor_def await_def e)
  also have "\<dots> = (Inl (During er eb), s3)"
    by (simp add: try_finally_def b r)
  finally show ?thesis
    by (simp add: s1_def s2_def s3_def)
qed

theorem use_governor_restore_failure_surfaces_witness:
  "fst (enter_use_governor ''performance'' [0] [] odd_board)
     = Inr ([(0, ([0], ''ondemand'', [], 1000000))], [0]) \<and>
   use_governor ''performance'' [0] [] failing_body odd_board =
     (Inl (During (TargetStableError ''Governor ondemand not supported for cpu cpu0'')
                  (UserError ''boom'')),
      snd (exit_use_governor [(0, ([0], ''ondemand'', [], 1000000))] [0]
             (snd (failing_body (snd (enter_use_governor ''performance'' [0] [] odd_board))))))"
proof -
  have h1: "fst (enter_use_governor ''performance'' [0] [] odd_board)
              = Inr ([(0, ([0], ''ondemand'', [], 1000000))], [0])"
    by (simp add: task_defs module_defs py_defs odd_board_def show_int_0 Let_def)
  have h2: "fst (failing_body (snd (enter_use_governor ''performance'' [0] [] odd_board)))
              = Inl (UserError ''boom'')"
    by (simp add: raise_def failing_body_def)
  have h3: "fst (exit_use_governor [(0, ([0], ''ondemand'', [], 1000000))] [0]
              (snd (failing_body (snd (enter_use_governor ''performance'' [0] [] odd_board)))))
            = Inl (TargetStableError ''Governor ondemand not supported for cpu cpu0'')"
    by (simp add: task_defs module_defs py_defs odd_board_def failing_body_def show_int_0
          Let_def)
  show ?thesis
    by (rule conjI [OF h1 use_governor_restore_failure_surfaces
          [where body = failing_body, OF h1 h2 h3]])
qed

text \<open>
  C3 as the specification states it fails on \<open>odd_board\<close>: the body raises, the
  restoration raises because the previous governor is not accepted, and the caller
  does not receive the exception of the body.
\<close>

theorem use_governor_body_exception_replaced:
  "fst (use_governor ''performance'' [0] [] failing_body odd_board)
     = Inl (During (TargetStableError ''Governor ondemand not supported for cpu cpu0'')
                   (UserError ''boom'')) \<and>
   fst (use_governor ''performance'' [0] [] failing_body odd_board) \<noteq> Inl (UserError ''boom'')"
  by (simp add: task_defs module_defs py_defs odd_board_def failing_body_def show_int_0 Let_def)

text \<open>
  C6, as the code has it. Let \<^verbatim>\<open>_list_governor_tunables\<close> answer
  \<open>(gov, gov_per_cpu, valid)\<close> for the call, let the keyword tunables be \<open>before\<close>, all
  of them valid, then \<open>tunable\<close>, which is not valid, then \<open>rest\<close>, and let the
  tunables of \<open>before\<close>, set on their own, be set without an error. Then the call
  raises \<^verbatim>\<open>TargetStableError\<close> with the message built from \<open>tunable\<close> and from the
  list \<open>valid\<close>, both of which occur in it. The state it leaves is the state after
  the writes of \<open>before\<close> (none of them when the \<open>per_cpu\<close> filter passes over this
  governor): those writes are recorded, in order, and nothing undoes them.
\<close>

theorem set_governor_tunables_unexpected_tunable:
  assumes listed:
      "fst (priv_list_governor_tunables (CpuName (cpu_str cpu)) governor s)
         = Inr (gov, gov_per_cpu, valid)"
    and before_valid: "fst ` set before \<subseteq> set valid"
    and before_set: "fst (set_governor_tunables cpu governor per_cpu before s) = Inr ()"
    and invalid: "tunable \<notin> set valid"
  shows "set_governor_tunables cpu governor per_cpu (before @ (tunable, v) # rest) s =
           (Inl (TargetStableError (unexpected_tunable tunable gov (cpu_str cpu) valid)),
            fold (\<lambda>(t, v). written (tunable_path gov_per_cpu (cpu_str cpu) gov t) v)
              (if filtered_out per_cpu gov_per_cpu then [] else before)
              (snd (priv_list_governor_tunables (CpuName (cpu_str cpu)) governor s))) \<and>
         accesses (snd (set_governor_tunables cpu governor per_cpu (before @ (tunable, v) # rest) s)) =
           accesses (snd (priv_list_governor_tunables (CpuName (cpu_str cpu)) governor s))
             @ map (\<lambda>(t, v). Write (tunable_path gov_per_cpu (cpu_str cpu) gov t) v)
                 (if filtered_out per_cpu gov_per_cpu then [] else before) \<and>
         sublist tunable (unexpected_tunable tunable gov (cpu_str cpu) valid) \<and>
         sublist (repr_list valid) (unexpected_tunable tunable gov (cpu_str cpu) valid)"
proof -
  define s1 where "s1 = snd (priv_list_governor_tunables (CpuName (cpu_str cpu)) governor s)"
  define s2 where "s2 = fold (\<lambda>(t, v). written (tunable_path gov_per_cpu (cpu_str cpu) gov t) v)
              (if filtered_out per_cpu gov_per_cpu then [] else before) s1"
  have l: "priv_list_governor_tunables (CpuName (cpu_str cpu)) governor s
             = (Inr (gov, gov_per_cpu, valid), s1)"
    unfolding s1_def by (rule run_pair [OF listed])
  have "fst (write_tunables (cpu_str cpu) gov gov_per_cpu valid per_cpu before s1) = Inr ()"
  proof (cases "before = []")
    case True
    then show ?thesis by (simp add: ret_def)
  next
    case False
    then show ?thesis
      using before_set by (simp add: set_governor_tunables_def await_def l Let_def)
  qed
  then have w: "write_tunables (cpu_str cpu) gov gov_per_cpu valid per_cpu before s1 = (Inr (), s2)"
    unfolding s2_def by (rule write_tunables_Inr)
  have "write_tunables (cpu_str cpu) gov gov_per_cpu valid per_cpu (before @ (tunable, v) # rest) s1
          = write_tunables (cpu_str cpu) gov gov_per_cpu valid per_cpu ((tunable, v) # rest) s2"
    by (rule write_tunables_append [OF w])
  also have "\<dots> = (Inl (TargetStableError (unexpected_tunable tunable gov (cpu_str cpu) valid)), s2)"
    unfolding write_tunables_Cons using invalid by (simp add: raise_def)
  finally have call:
    "set_governor_tunables cpu governor per_cpu (before @ (tunable, v) # rest) s
       = (Inl (TargetStableError (unexpected_tunable tunable gov (cpu_str cpu) valid)), s2)"
    by (simp add: set_governor_tunables_def await_def l Let_def)
  have acc: "accesses s2 = accesses s1
               @ map (\<lambda>(t, v). Write (tunable_path gov_per_cpu (cpu_str cpu) gov t) v)
                   (if filtered_out per_cpu gov_per_cpu then [] else before)"
    unfolding s2_def by (rule accesses_fold_written)
  have c1: "set_governor_tunables cpu governor per_cpu (before @ (tunable, v) # rest) s =
           (Inl (TargetStableError (unexpected_tunable tunable gov (cpu_str cpu) valid)),
            fold (\<lambda>(t, v). written (tunable_path gov_per_cpu (cpu_str cpu) gov t) v)
              (if filtered_out per_cpu gov_per_cpu then [] else before)
              (snd (priv_list_governor_tunables (CpuName (cpu_str cpu)) governor s)))"
    using call unfolding s2_def s1_def .
  have c2: "accesses (snd (set_governor_tunables cpu governor per_cpu (before @ (tunable, v) # rest) s)) =
           accesses (snd (priv_list_governor_tunables (CpuName (cpu_str cpu)) governor s))
             @ map (\<lambda>(t, v). Write (tunable_path gov_per_cpu (cpu_str cpu) gov t) v)
                 (if filtered_out per_cpu gov_per_cpu then [] else before)"
    by (simp only: call snd_conv acc s1_def)
  show ?thesis
    by (intro conjI c1 c2 sublist_unexpected_tunable_name sublist_unexpected_tunable_valid)
qed


text \<open>
  An instance of C6 on \<open>phone\<close>: one valid tunable is written, then \<^verbatim>\<open>bogus\<close> ends the
  call, and the tunable after it is never reached.
\<close>

theorem set_governor_tunables_unexpected_tunable_witness:
  "fst (priv_list_governor_tunables (CpuName (cpu_str (CpuNum 0))) (Some ''interactive'') phone)
     = Inr (''interactive'', True, [''boostpulse'', ''hispeed_freq'', ''timer_rate'']) \<and>
   fst ` set [(''hispeed_freq'', ''1500000'')] \<subseteq> set [''boostpulse'', ''hispeed_freq'', ''timer_rate''] \<and>
   fst (set_governor_tunables (CpuNum 0) (Some ''interactive'') None
          [(''hispeed_freq'', ''1500000'')] phone) = Inr () \<and>
   ''bogus'' \<notin> set [''boostpulse'', ''hispeed_freq'', ''timer_rate''] \<and>
   fst (set_governor_tunables (CpuNum 0) (Some ''interactive'') None
          ([(''hispeed_freq'', ''1500000'')] @ (''bogus'', ''1'') # [(''timer_rate'', ''30000'')]) phone)
     = Inl (TargetStableError (unexpected_tunable ''bogus'' ''interactive'' ''cpu0''
              [''boostpulse'', ''hispeed_freq'', ''timer_rate''])) \<and>
   accesses (snd (set_governor_tunables (CpuNum 0) (Some ''interactive'') None
          ([(''hispeed_freq'', ''1500000'')] @ (''bogus'', ''1'') # [(''timer_rate'', ''30000'')]) phone))
     = [ListDir ''/sys/devices/system/cpu/cpu0/cpufreq/interactive'',
        Write ''/sys/devices/system/cpu/cpu0/cpufreq/interactive/hispeed_freq'' ''1500000'']"
proof -
  have h1: "fst (priv_list_governor_tunables (CpuName (cpu_str (CpuNum 0))) (Some ''interactive'') phone)
     = Inr (''interactive'', True, [''boostpulse'', ''hispeed_freq'', ''timer_rate''])"
    by (simp add: task_defs module_defs phone_def show_int_0 Let_def)
  have h2: "fst ` set [(''hispeed_freq'', ''1500000'')] \<subseteq> set [''boostpulse'', ''hispeed_freq'', ''timer_rate'']"
    by simp
  have h3: "fst (set_governor_tunables (CpuNum 0) (Some ''interactive'') None
          [(''hispeed_freq'', ''1500000'')] phone) = Inr ()"
    by (simp add: task_defs module_defs py_defs phone_def show_int_0 Let_def)
  have h4: "''bogus'' \<notin> set [''boostpulse'', ''hispeed_freq'', ''timer_rate'']"
    by simp
  have a: "accesses (snd (priv_list_governor_tunables (CpuName (cpu_str (CpuNum 0))) (Some ''interactive'') phone))
             = [ListDir ''/sys/devices/system/cpu/cpu0/cpufreq/interactive'']"
    by (simp add: task_defs module_defs phone_def show_int_0 Let_def)
  note t = set_governor_tunables_unexpected_tunable [OF h1 h2 h3 h4, of "''1''" "[(''timer_rate'', ''30000'')]"]
  have c1: "fst (set_governor_tunables (CpuNum 0) (Some ''interactive'') None
          ([(''hispeed_freq'', ''1500000'')] @ (''bogus'', ''1'') # [(''timer_rate'', ''30000'')]) phone)
     = Inl (TargetStableError (unexpected_tunable ''bogus'' ''interactive'' ''cpu0''
              [''boostpulse'', ''hispeed_freq'', ''timer_rate'']))"
    using t by (simp add: show_int_0)
  have c2: "accesses (snd (set_governor_tunables (CpuNum 0) (Some ''interactive'') None
          ([(''hispeed_freq'', ''1500000'')] @ (''bogus'', ''1'') # [(''timer_rate'', ''30000'')]) phone))
     = [ListDir ''/sys/devices/system/cpu/cpu0/cpufreq/interactive'',
        Write ''/sys/devices/system/cpu/cpu0/cpufreq/interactive/hispeed_freq'' ''1500000'']"
    using conjunct1 [OF conjunct2 [OF t]] a
    by (simp add: filtered_out_def tunable_path_def tunable_path_per_cpu_def show_int_0)
  show ?thesis
    by (intro conjI h1 h2 h3 h4 c1 c2)
qed

text \<open>
  C6 as the claim states it fails on \<open>phone\<close>: the keyword tunables hold the name
  \<^verbatim>\<open>bogus\<close>, which is not a tunable of the governor, after \<^verbatim>\<open>hispeed_freq\<close>, whose
  value the device refuses. The call ends at the refused write, and the error it
  raises names neither \<^verbatim>\<open>bogus\<close> nor the valid tunables.
\<close>

theorem set_governor_tunables_refused_write_first:
  "fst (priv_list_governor_tunables (CpuName (cpu_str (CpuNum 0))) (Some ''interactive'') phone)
     = Inr (''interactive'', True, [''boostpulse'', ''hispeed_freq'', ''timer_rate'']) \<and>
   ''bogus'' \<notin> set [''boostpulse'', ''hispeed_freq'', ''timer_rate''] \<and>
   fst (set_governor_tunables (CpuNum 0) (Some ''interactive'') None
          [(''hispeed_freq'', ''fast''), (''bogus'', ''1'')] phone)
     = Inl (TargetStableError
         ''Could not write fast to /sys/devices/system/cpu/cpu0/cpufreq/interactive/hispeed_freq'') \<and>
   \<not> sublist ''bogus''
       ''Could not write fast to /sys/devices/system/cpu/cpu0/cpufreq/interactive/hispeed_freq'' \<and>
   \<not> sublist (repr_list [''boostpulse'', ''hispeed_freq'', ''timer_rate''])
       ''Could not write fast to /sys/devices/system/cpu/cpu0/cpufreq/interactive/hispeed_freq''"
proof -
  have h1: "fst (priv_list_governor_tunables (CpuName (cpu_str (CpuNum 0))) (Some ''interactive'') phone)
     = Inr (''interactive'', True, [''boostpulse'', ''hispeed_freq'', ''timer_rate''])"
    by (simp add: task_defs module_defs phone_def show_int_0 Let_def)
  have h2: "''bogus'' \<notin> set [''boostpulse'', ''hispeed_freq'', ''timer_rate'']"
    by simp
  have h3: "fst (set_governor_tunables (CpuNum 0) (Some ''interactive'') None
          [(''hispeed_freq'', ''fast''), (''bogus'', ''1'')] phone)
     = Inl (TargetStableError
         ''Could not write fast to /sys/devices/system/cpu/cpu0/cpufreq/interactive/hispeed_freq'')"
    by (simp add: task_defs module_defs py_defs phone_def show_int_0 Let_def)
  have h4: "\<not> sublist ''bogus''
       ''Could not write fast to /sys/devices/system/cpu/cpu0/cpufreq/interactive/hispeed_freq''"
  proof
    assume "sublist ''bogus''
       ''Could not write fast to /sys/devices/system/cpu/cpu0/cpufreq/interactive/hispeed_freq''"
    then have "set ''bogus'' \<subseteq>
       set ''Could not write fast to /sys/devices/system/cpu/cpu0/cpufreq/interactive/hispeed_freq''"
      by (rule set_mono_sublist)
    then show False by simp
  qed
  have h5: "\<not> sublist (repr_list [''boostpulse'', ''hispeed_freq'', ''timer_rate''])
       ''Could not write fast to /sys/devices/system/cpu/cpu0/cpufreq/interactive/hispeed_freq''"
  proof
    assume "sublist (repr_list [''boostpulse'', ''hispeed_freq'', ''timer_rate''])
       ''Could not write fast to /sys/devices/system/cpu/cpu0/cpufreq/interactive/hispeed_freq''"
    then have "set (repr_list [''boostpulse'', ''hispeed_freq'', ''timer_rate'']) \<subseteq>
       set ''Could not write fast to /sys/devices/system/cpu/cpu0/cpufreq/interactive/hispeed_freq''"
      by (rule set_mono_sublist)
    moreover have "CHR ''['' \<in> set (repr_list [''boostpulse'', ''hispeed_freq'', ''timer_rate''])"
      by (simp add: repr_list_def)
    ultimately show False by auto
  qed
  show ?thesis
    by (intro conjI h1 h2 h3 h4 h5)
qed

text \<open>
  C9. On \<open>phone\<close> the governor of cpu0 is \<^verbatim>\<open>interactive\<close>, \<^verbatim>\<open>boostpulse\<close> is among its
  tunables, and its file takes writes and cannot be read.
  \<^verbatim>\<open>get_governor_tunables(0)\<close> leaves \<^verbatim>\<open>boostpulse\<close> out.
  \<^verbatim>\<open>set_governor_tunables(0, 'interactive', boostpulse='1')\<close> issues the write to the
  \<^verbatim>\<open>boostpulse\<close> file and then raises \<^verbatim>\<open>TargetStableError\<close>: the write is made with
  \<^verbatim>\<open>verify\<close> at its default, and the file cannot be read back.
\<close>

theorem boostpulse_verified_write_raises:
  "fst (get_governor (CpuNum 0) phone) = Inr ''interactive'' \<and>
   fst (list_governor_tunables (CpuNum 0) phone)
     = Inr [''boostpulse'', ''hispeed_freq'', ''timer_rate''] \<and>
   fst (get_governor_tunables (CpuNum 0) phone)
     = Inr [(''hispeed_freq'', ''1200000''), (''timer_rate'', ''20000'')] \<and>
   fst (set_governor_tunables (CpuNum 0) (Some ''interactive'') None [(''boostpulse'', ''1'')] phone)
     = Inl (TargetStableError
         ''Could not set the value of /sys/devices/system/cpu/cpu0/cpufreq/interactive/boostpulse to 1'') \<and>
   accesses (snd (set_governor_tunables (CpuNum 0) (Some ''interactive'') None
                    [(''boostpulse'', ''1'')] phone))
     = [ListDir ''/sys/devices/system/cpu/cpu0/cpufreq/interactive'',
        Write ''/sys/devices/system/cpu/cpu0/cpufreq/interactive/boostpulse'' ''1''] \<and>
   fst (write_value ''/sys/devices/system/cpu/cpu0/cpufreq/interactive/boostpulse'' ''1'' False phone)
     = Inr ()"
proof -
  have h1: "fst (get_governor (CpuNum 0) phone) = Inr ''interactive''"
    by (simp add: task_defs module_defs phone_def show_int_0 Let_def)
  have h2: "fst (list_governor_tunables (CpuNum 0) phone)
              = Inr [''boostpulse'', ''hispeed_freq'', ''timer_rate'']"
    by (simp add: task_defs module_defs list_governor_tunables_def phone_def show_int_0 Let_def)
  have h3: "fst (get_governor_tunables (CpuNum 0) phone)
              = Inr [(''hispeed_freq'', ''1200000''), (''timer_rate'', ''20000'')]"
    by (simp add: task_defs module_defs py_defs phone_def show_int_0 Let_def)
  have h4: "fst (set_governor_tunables (CpuNum 0) (Some ''interactive'') None [(''boostpulse'', ''1'')] phone)
     = Inl (TargetStableError
         ''Could not set the value of /sys/devices/system/cpu/cpu0/cpufreq/interactive/boostpulse to 1'')"
    by (simp add: task_defs module_defs py_defs phone_def show_int_0 Let_def)
  have h5: "accesses (snd (set_governor_tunables (CpuNum 0) (Some ''interactive'') None
                    [(''boostpulse'', ''1'')] phone))
     = [ListDir ''/sys/devices/system/cpu/cpu0/cpufreq/interactive'',
        Write ''/sys/devices/system/cpu/cpu0/cpufreq/interactive/boostpulse'' ''1'']"
    by (simp add: task_defs module_defs py_defs phone_def show_int_0 Let_def)
  have h6: "fst (write_value ''/sys/devices/system/cpu/cpu0/cpufreq/interactive/boostpulse'' ''1'' False phone)
     = Inr ()"
    by (simp add: task_defs phone_def)
  show ?thesis
    by (intro conjI h1 h2 h3 h4 h5 h6)
qed

text \<open>
  C4, as the code has it. Let the cpus be \<open>0, \<dots>, number_of_cpus - 1\<close> and let
  \<^verbatim>\<open>get_related_cpus\<close> answer, for each of them, a list that contains the cpu, stays
  among the cpus, and whose members are all answered the same set. Then, whichever
  element \<^verbatim>\<open>next(iter(cpus))\<close> picks, the generator finishes without an exception, the
  domains it yields are pairwise disjoint, their union is the set of all cpus, and
  every cpu is in exactly one of them.
\<close>

theorem iter_domains_partition:
  assumes pick: "\<And>xs. xs \<noteq> [] \<Longrightarrow> next_iter xs \<in> set xs"
    and rel: "\<And>c. c \<in> set (map int [0..<number_of_cpus s]) \<Longrightarrow>
                \<exists>d. related_cpus_of s c = Inr d \<and> c \<in> set d \<and>
                    set d \<subseteq> set (map int [0..<number_of_cpus s]) \<and>
                    (\<forall>c' \<in> set d. \<exists>d'. related_cpus_of s c' = Inr d' \<and> set d' = set d)"
  shows "\<exists>domains s'. iter_domains next_iter s = Some ((domains, None), s') \<and>
           \<Union> (set ` set domains) = set (map int [0..<number_of_cpus s]) \<and>
           (\<forall>i < length domains. \<forall>j < length domains.
              i \<noteq> j \<longrightarrow> set (domains ! i) \<inter> set (domains ! j) = {}) \<and>
           (\<forall>c \<in> set (map int [0..<number_of_cpus s]).
              \<exists>!i. i < length domains \<and> c \<in> set (domains ! i))"
proof -
  obtain domains s' where
    run: "iter_domains_loop next_iter (map int [0..<number_of_cpus s]) s = Some ((domains, None), s')"
    and union: "\<Union> (set ` set domains) = set (map int [0..<number_of_cpus s])"
    and disj: "pairwise_disjoint domains"
    using iter_domains_loop_partition [of next_iter "map int [0..<number_of_cpus s]" s, OF pick rel]
    by blast
  have apart: "set (domains ! i) \<inter> set (domains ! j) = {}"
    if "i < length domains" "j < length domains" "i \<noteq> j" for i j
    using pairwise_disjoint_nth [OF disj that] .
  have once: "\<exists>!i. i < length domains \<and> c \<in> set (domains ! i)"
    if c: "c \<in> set (map int [0..<number_of_cpus s])" for c
  proof -
    from c union obtain d where "d \<in> set domains" "c \<in> set d" by blast
    then obtain i where i: "i < length domains" "c \<in> set (domains ! i)"
      by (auto simp: in_set_conv_nth)
    have "j = i" if "j < length domains" "c \<in> set (domains ! j)" for j
      using apart [of i j] i that by blast
    then show ?thesis using i by blast
  qed
  show ?thesis
    unfolding iter_domains_def
  proof (intro exI conjI)
    show "iter_domains_loop next_iter (map int [0..<number_of_cpus s]) s = Some ((domains, None), s')"
      by (rule run)
    show "\<Union> (set ` set domains) = set (map int [0..<number_of_cpus s])"
      by (rule union)
    show "\<forall>i < length domains. \<forall>j < length domains.
              i \<noteq> j \<longrightarrow> set (domains ! i) \<inter> set (domains ! j) = {}"
      using apart by blast
    show "\<forall>c \<in> set (map int [0..<number_of_cpus s]).
              \<exists>!i. i < length domains \<and> c \<in> set (domains ! i)"
      using once by blast
  qed
qed

text \<open>An instance of C4 on \<open>board\<close>, where both cpus are related to \<open>[0, 1]\<close>.\<close>

theorem iter_domains_partition_witness:
  "related_cpus_of board 0 = Inr [0, 1] \<and> related_cpus_of board 1 = Inr [0, 1] \<and>
   (\<exists>domains s'. iter_domains hd board = Some ((domains, None), s') \<and>
      \<Union> (set ` set domains) = set (map int [0..<number_of_cpus board]) \<and>
      (\<forall>i < length domains. \<forall>j < length domains.
         i \<noteq> j \<longrightarrow> set (domains ! i) \<inter> set (domains ! j) = {}) \<and>
      (\<forall>c \<in> set (map int [0..<number_of_cpus board]).
         \<exists>!i. i < length domains \<and> c \<in> set (domains ! i)))"
proof -
  have r0: "related_cpus_of board 0 = Inr [0, 1]"
    by (simp add: related_cpus_of_def get_related_cpus_def task_defs py_defs sysfs_cpufreq_def
          board_def policy_link_def show_int_0 Let_def)
  have r1: "related_cpus_of board 1 = Inr [0, 1]"
    by (simp add: related_cpus_of_def get_related_cpus_def task_defs py_defs sysfs_cpufreq_def
          board_def policy_link_def show_int_1 Let_def)
  have n: "map int [0..<number_of_cpus board] = [0, 1]"
    by (simp add: board_def upt_2)
  have pick: "xs \<noteq> [] \<Longrightarrow> hd xs \<in> set xs" for xs :: "int list"
    by simp
  have rel: "\<exists>d. related_cpus_of board c = Inr d \<and> c \<in> set d \<and>
                    set d \<subseteq> set (map int [0..<number_of_cpus board]) \<and>
                    (\<forall>c' \<in> set d. \<exists>d'. related_cpus_of board c' = Inr d' \<and> set d' = set d)"
    if "c \<in> set (map int [0..<number_of_cpus board])" for c
    using that unfolding n by (auto simp: r0 r1)
  show ?thesis
    by (intro conjI r0 r1 iter_domains_partition [of hd board, OF pick rel])
qed

text \<open>
  C4 as the specification states it, for every relation, fails on \<open>skewed_board\<close>:
  the run yields \<open>[0]\<close> and then \<open>[0, 1]\<close>, and cpu 0 is in both.
\<close>

theorem iter_domains_overlap:
  "map_option fst (iter_domains hd skewed_board) = Some ([[0], [0, 1]], None) \<and>
   (0::int) \<in> set [0] \<inter> set [0, 1]"
proof -
  define s1 where "s1 = snd (get_related_cpus (CpuNum 0) skewed_board)"
  define s2 where "s2 = snd (get_related_cpus (CpuNum 1) s1)"
  have f0: "fst (get_related_cpus (CpuNum 0) skewed_board) = Inr [0]"
    by (simp add: get_related_cpus_def task_defs py_defs sysfs_cpufreq_def skewed_board_def
          show_int_0 Let_def)
  have r0: "get_related_cpus (CpuNum 0) skewed_board = (Inr [0], s1)"
    unfolding s1_def by (rule run_pair [OF f0])
  have f1: "fst (get_related_cpus (CpuNum 1) s1) = Inr [0, 1]"
    unfolding s1_def
    by (simp add: get_related_cpus_def task_defs py_defs sysfs_cpufreq_def skewed_board_def
          show_int_0 show_int_1 Let_def)
  have r1: "get_related_cpus (CpuNum 1) s1 = (Inr [0, 1], s2)"
    unfolding s2_def by (rule run_pair [OF f1])
  have l1: "iter_domains_loop hd [1] s1 = Some (([[0, 1]], None), s2)"
    using iter_domains_loop_step [of "[1]" hd s1 "[0, 1]" s2] r1
    by (simp add: iter_domains_loop_Nil)
  have l0: "iter_domains_loop hd [0, 1] skewed_board = Some (([[0], [0, 1]], None), s2)"
    using iter_domains_loop_step [of "[0, 1]" hd skewed_board "[0]" s1] r0
    by (simp add: l1)
  have n: "number_of_cpus skewed_board = 2"
    by (simp add: skewed_board_def)
  show ?thesis
    by (simp add: iter_domains_def n upt_2 l0)
qed




text \<open>
  C7. The accesses of the \<^verbatim>\<open>finally\<close> block split in two: first those of the call
  that restores the governors, among which every write is a write to a governor file,
  then those of the call that restores the tunables, none of which is a write to a
  governor file. The second part is empty unless the first call returned.
\<close>

theorem restore_governors_before_tunables:
  "\<exists>ga tb.
     accesses (snd (exit_use_governor cpus_infos domains s)) = accesses s @ ga @ tb \<and>
     accesses (snd (restore_governors cpus_infos domains s)) = accesses s @ ga \<and>
     list_all (\<lambda>a. is_write a \<longrightarrow> governor_write a) ga \<and>
     list_all (\<lambda>a. \<not> governor_write a) tb \<and>
     (tb \<noteq> [] \<longrightarrow> (\<exists>us. fst (restore_governors cpus_infos domains s) = Inr us))"
proof -
  obtain r s1 where g: "restore_governors cpus_infos domains s = (r, s1)"
    by (cases "restore_governors cpus_infos domains s")
  obtain ga where ga: "accesses s1 = accesses s @ ga"
    "list_all (\<lambda>a. is_write a \<longrightarrow> governor_write a) ga"
    using emits_run [OF restore_governors_writes g] by blast
  show ?thesis
  proof (cases r)
    case (Inl e)
    then have "exit_use_governor cpus_infos domains s = (Inl e, s1)"
      by (simp add: exit_use_governor_def await_def g)
    then have "accesses (snd (exit_use_governor cpus_infos domains s)) = accesses s @ ga @ [] \<and>
       accesses (snd (restore_governors cpus_infos domains s)) = accesses s @ ga \<and>
       list_all (\<lambda>a. is_write a \<longrightarrow> governor_write a) ga \<and>
       list_all (\<lambda>a. \<not> governor_write a) [] \<and>
       ([] \<noteq> ([] :: access list) \<longrightarrow> (\<exists>us. fst (restore_governors cpus_infos domains s) = Inr us))"
      using ga g by simp
    then show ?thesis by blast
  next
    case (Inr us)
    obtain r2 s2 where t: "restore_tunables cpus_infos domains s1 = (r2, s2)"
      by (cases "restore_tunables cpus_infos domains s1")
    obtain tb where tb: "accesses s2 = accesses s1 @ tb" "list_all (\<lambda>a. \<not> governor_write a) tb"
      using emits_run [OF restore_tunables_no_governor_write t] by blast
    have "exit_use_governor cpus_infos domains s = (r2, s2)"
      by (simp add: exit_use_governor_def await_def g Inr t)
    then have "accesses (snd (exit_use_governor cpus_infos domains s)) = accesses s @ ga @ tb \<and>
       accesses (snd (restore_governors cpus_infos domains s)) = accesses s @ ga \<and>
       list_all (\<lambda>a. is_write a \<longrightarrow> governor_write a) ga \<and>
       list_all (\<lambda>a. \<not> governor_write a) tb \<and>
       (tb \<noteq> [] \<longrightarrow> (\<exists>us. fst (restore_governors cpus_infos domains s) = Inr us))"
      using ga tb g Inr by simp
    then show ?thesis by blast
  qed
qed


text \<open>
  An instance of C7 on \<open>phone\<close>: the governor is written back first, then the two
  tunables that were captured.
\<close>

theorem restore_governors_before_tunables_witness:
  "accesses (snd (exit_use_governor
       [(0, ([0], ''interactive'', [(''hispeed_freq'', ''1200000''), (''timer_rate'', ''20000'')], 1000000))]
       [0] phone))
     = [Read ''/sys/devices/system/cpu/cpu0/cpufreq/scaling_available_governors'',
        Write ''/sys/devices/system/cpu/cpu0/cpufreq/scaling_governor'' ''interactive'',
        ListDir ''/sys/devices/system/cpu/cpu0/cpufreq/interactive'',
        Write ''/sys/devices/system/cpu/cpu0/cpufreq/interactive/hispeed_freq'' ''1200000'',
        Write ''/sys/devices/system/cpu/cpu0/cpufreq/interactive/timer_rate'' ''20000''] \<and>
   (\<exists>ga tb.
     accesses (snd (exit_use_governor
       [(0, ([0], ''interactive'', [(''hispeed_freq'', ''1200000''), (''timer_rate'', ''20000'')], 1000000))]
       [0] phone)) = accesses phone @ ga @ tb \<and>
     accesses (snd (restore_governors
       [(0, ([0], ''interactive'', [(''hispeed_freq'', ''1200000''), (''timer_rate'', ''20000'')], 1000000))]
       [0] phone)) = accesses phone @ ga \<and>
     list_all (\<lambda>a. is_write a \<longrightarrow> governor_write a) ga \<and>
     list_all (\<lambda>a. \<not> governor_write a) tb \<and>
     (tb \<noteq> [] \<longrightarrow> (\<exists>us. fst (restore_governors
       [(0, ([0], ''interactive'', [(''hispeed_freq'', ''1200000''), (''timer_rate'', ''20000'')], 1000000))]
       [0] phone) = Inr us)))"
proof -
  have a: "accesses (snd (exit_use_governor
       [(0, ([0], ''interactive'', [(''hispeed_freq'', ''1200000''), (''timer_rate'', ''20000'')], 1000000))]
       [0] phone))
     = [Read ''/sys/devices/system/cpu/cpu0/cpufreq/scaling_available_governors'',
        Write ''/sys/devices/system/cpu/cpu0/cpufreq/scaling_governor'' ''interactive'',
        ListDir ''/sys/devices/system/cpu/cpu0/cpufreq/interactive'',
        Write ''/sys/devices/system/cpu/cpu0/cpufreq/interactive/hispeed_freq'' ''1200000'',
        Write ''/sys/devices/system/cpu/cpu0/cpufreq/interactive/timer_rate'' ''20000'']"
    by (simp add: task_defs module_defs py_defs phone_def show_int_0 Let_def)
  note t = restore_governors_before_tunables
    [of "[(0, ([0], ''interactive'', [(''hispeed_freq'', ''1200000''), (''timer_rate'', ''20000'')], 1000000))]"
        "[0]" phone]
  from a t show ?thesis
    by (rule conjI)
qed





end
